theory Spec2Isabelle
  imports Main "HOL-Library.AList"
begin

section \<open>The plugin manager of \<^verbatim>\<open>plugin/manager.go\<close>\<close>

text \<open>
  The Go code works on shared objects: a \<^verbatim>\<open>*v2.Plugin\<close> is loaded once, handed to
  the Plugin Store inside a \<^verbatim>\<open>map[string]*v2.Plugin\<close>, used as the key of the
  controller table \<^verbatim>\<open>cMap\<close>, and mutated in place by the recovery task.
  \<^verbatim>\<open>StateChanged\<close> looks \<^verbatim>\<open>cMap\<close> up with the pointer that the Store returns,
  so the Store holds the very pointers that \<^verbatim>\<open>reload\<close> created. The model keeps
  that aliasing: plugin records live in a heap, and the Store and \<^verbatim>\<open>cMap\<close> hold
  addresses. Every call that leaves the Manager (file system, Store, Execution Engine,
  logger, locks) is appended to a trace, in program order.
\<close>

subsection \<open>Paths and strings of the Go library\<close>

text \<open>\<^verbatim>\<open>strings.HasPrefix\<close>.\<close>

definition HasPrefix :: "string \<Rightarrow> string \<Rightarrow> bool" where
  "HasPrefix s pre = (take (length pre) s = pre)"

text \<open>\<^verbatim>\<open>strings.Split(path, "/")\<close>: the result is never empty.\<close>

fun split_path :: "string \<Rightarrow> string list" where
  "split_path [] = [[]]"
| "split_path (c # cs) =
     (if c = CHR ''/'' then [] # split_path cs
      else (case split_path cs of [] \<Rightarrow> [[c]] | w # ws \<Rightarrow> (c # w) # ws))"

text \<open>\<^verbatim>\<open>strings.Join(elems, "/")\<close>.\<close>

fun strings_Join :: "string list \<Rightarrow> string" where
  "strings_Join [] = []"
| "strings_Join [e] = e"
| "strings_Join (e # es) = e @ ''/'' @ strings_Join es"

text \<open>
  \<^verbatim>\<open>filepath.Clean\<close> on a Unix path, element by element: empty elements and
  \<^verbatim>\<open>.\<close> are dropped, \<^verbatim>\<open>..\<close> removes the element before it, is dropped at the
  root, and is kept at the start of a relative path. \<open>out\<close> is the reversed result.
\<close>

fun clean_elems :: "bool \<Rightarrow> string list \<Rightarrow> string list \<Rightarrow> string list" where
  "clean_elems rooted [] out = rev out"
| "clean_elems rooted (e # es) out =
     (if e = [] \<or> e = ''.'' then clean_elems rooted es out
      else if e = ''..'' then
        (case out of
           [] \<Rightarrow> if rooted then clean_elems rooted es [] else clean_elems rooted es [e]
         | t # ts \<Rightarrow> if t = ''..'' then clean_elems rooted es (e # out)
                     else clean_elems rooted es ts)
      else clean_elems rooted es (e # out))"

definition filepath_Clean :: "string \<Rightarrow> string" where
  "filepath_Clean path =
     (case path of
        [] \<Rightarrow> ''.''
      | c # cs \<Rightarrow>
          (let rooted = (c = CHR ''/'');
               body = strings_Join (clean_elems rooted (split_path path) [])
           in if rooted then CHR ''/'' # body
              else if body = [] then ''.'' else body))"

text \<open>\<^verbatim>\<open>filepath.Join\<close>: leading empty elements are skipped, the rest is joined
  with the separator and cleaned; all empty gives the empty string.\<close>

definition filepath_Join :: "string list \<Rightarrow> string" where
  "filepath_Join elem =
     (case dropWhile (\<lambda>e. e = []) elem of
        [] \<Rightarrow> []
      | es \<Rightarrow> filepath_Clean (strings_Join es))"

definition configFileName :: string where
  "configFileName = ''config.json''"

text \<open>
  Modelled from the spec: \<^verbatim>\<open>validFullID\<close> is a package-level regular expression
  declared outside \<^verbatim>\<open>manager.go\<close>. The spec calls the full-ID format a
  fixed-length lowercase hex string, and gives the length as 64 characters.
\<close>

definition hexdigits :: "char list" where
  "hexdigits = ''0123456789abcdef''"

definition validFullID :: "string \<Rightarrow> bool" where
  "validFullID name = (length name = 64 \<and> list_all (\<lambda>c. c \<in> set hexdigits) name)"

subsection \<open>Data\<close>

text \<open>An \<^verbatim>\<open>error\<close> value; \<open>Wrap err msg\<close> is \<^verbatim>\<open>errors.Wrapf(err, msg)\<close>.\<close>

datatype error = Errno string | ErrNotFound string | Wrap error string

text \<open>The fields of \<^verbatim>\<open>types.Plugin\<close> and \<^verbatim>\<open>v2.Plugin\<close> that the Manager reads
  or writes.\<close>

record PluginInterfaceType =
  Capability :: string
  Prefix :: string
  Version :: string

record PluginConfigInterface =
  Types :: "PluginInterfaceType list"

record PluginConfig =
  Interface :: PluginConfigInterface
  ConfigPropagatedMount :: string

record types_Plugin =
  ID :: string
  Name :: string
  Enabled :: bool
  Config :: PluginConfig

record v2_Plugin =
  PluginObj :: types_Plugin
  PropagatedMount :: string
  Rootfs :: string

text \<open>A \<^verbatim>\<open>chan bool\<close> that is only ever closed: open or closed. A nil channel is
  \<open>None\<close> in the controller.\<close>

datatype chan = ChanOpen | ChanClosed

record controller =
  restart :: bool
  exitChan :: "chan option"
  timeoutInSecs :: int

text \<open>\<^verbatim>\<open>&controller{}\<close>: the zero value.\<close>

definition zero_controller :: controller where
  "zero_controller = \<lparr>restart = False, exitChan = None, timeoutInSecs = 0\<rparr>"

text \<open>The fields of \<^verbatim>\<open>ManagerConfig\<close> that are plain data. The Store and the
  Executor are handles; their state is part of the state below.\<close>

record ManagerConfig =
  LiveRestoreEnabled :: bool
  Root :: string
  ExecRoot :: string

type_synonym ref = nat

datatype log_level = Debug | Warn | Error

datatype State = StateExit | StateOther string

datatype logarg = LStr string | LErr error | LState State

datatype event =
    EvMkdirAll string nat
  | EvExecutorClient
  | EvReadDir string
  | EvReadFile string
  | EvSetAll "(string \<times> ref) list"
  | EvUpdate ref
  | EvPluginRestore ref string
  | EvReattach ref
  | EvEnable ref bool
  | EvRemoveFromDisk ref
  | EvUnmount string
  | EvClose ref
  | EvRLock
  | EvRUnlock
  | EvWgAdd nat
  | EvWgDone
  | EvWgWait
  | EvLog log_level string "logarg list"

text \<open>
  The state: the Manager (\<open>config\<close>, \<open>cMap\<close>), the Go heap of plugin records with
  its allocation frontier, the Plugin Store's index, the counter of the
  \<^verbatim>\<open>sync.WaitGroup\<close> of \<^verbatim>\<open>reload\<close>, and the trace.
\<close>

record state =
  config :: ManagerConfig
  cMap :: "ref \<rightharpoonup> controller"
  heap :: "ref \<Rightarrow> v2_Plugin"
  next_ref :: ref
  store :: "string \<rightharpoonup> ref"
  wg :: int
  trace :: "event list"

text \<open>
  What the Go scheduler may do next while \<^verbatim>\<open>reload\<close> runs: let the thread of
  \<^verbatim>\<open>reload\<close> go on, or run one of the goroutines that were started and have not
  run yet (by its position among them).
\<close>

datatype choice = RunMain | RunTask nat

text \<open>
  The world outside: what each call into the operating system, the JSON decoder and
  the Execution Engine answers (\<open>None\<close> is a nil error), and the choices of the Go
  scheduler.
\<close>

record env =
  os_ReadDir :: "string \<Rightarrow> error + string list"
  os_ReadFile :: "string \<Rightarrow> error + string"
  json_Unmarshal :: "string \<Rightarrow> error + v2_Plugin"
  os_MkdirAll :: "string \<Rightarrow> nat \<Rightarrow> error option"
  mount_Unmount :: "string \<Rightarrow> error option"
  Executor_Client :: "error option"
  engine_reattach :: "v2_Plugin \<Rightarrow> error option"
  engine_start :: "v2_Plugin \<Rightarrow> error option"
  go_schedule :: "choice list"

text \<open>How a call ends: it returns, it panics, or it blocks for ever.\<close>

datatype panic = NilDereference | CloseOfClosedChannel | NegativeWaitGroup

datatype 'a outcome = Return 'a | Panic panic | Block

definition emit :: "event \<Rightarrow> state \<Rightarrow> state" where
  "emit e s = s\<lparr>trace := trace s @ [e]\<rparr>"

text \<open>The events a run from \<open>s\<close> to \<open>s'\<close> appended.\<close>

definition events_since :: "state \<Rightarrow> state \<Rightarrow> event list" where
  "events_since s s' = drop (length (trace s)) (trace s')"

subsection \<open>Collaborators that are not in \<^verbatim>\<open>manager.go\<close>\<close>

text \<open>
  Modelled from the spec: the Plugin Store (bulk replace, single update,
  lookup-by-identity; an unknown identity is an error). Its index maps an identity to
  the pointer it was given.
\<close>

definition Store_SetAll :: "(string \<times> ref) list \<Rightarrow> state \<Rightarrow> state" where
  "Store_SetAll plugins s = emit (EvSetAll plugins) (s\<lparr>store := map_of plugins\<rparr>)"

definition Store_Update :: "ref \<Rightarrow> state \<Rightarrow> state" where
  "Store_Update p s =
     emit (EvUpdate p) (s\<lparr>store := (store s)(ID (PluginObj (heap s p)) \<mapsto> p)\<rparr>)"

definition Store_GetByID :: "string \<Rightarrow> state \<Rightarrow> error + ref" where
  "Store_GetByID ident s =
     (case store s ident of None \<Rightarrow> Inl (ErrNotFound ident) | Some p \<Rightarrow> Inr p)"

text \<open>
  Modelled from the spec: the methods of \<^verbatim>\<open>v2.Plugin\<close>. \<^verbatim>\<open>GetID\<close>,
  \<^verbatim>\<open>Name\<close> and \<^verbatim>\<open>IsEnabled\<close> read the identity, the human label and the
  \<^verbatim>\<open>Enabled\<close> flag. \<^verbatim>\<open>Restore\<close> and \<^verbatim>\<open>RemoveFromDisk\<close> act on runtime
  paths that the spec does not make part of the record: they are events. The result of
  \<^verbatim>\<open>RemoveFromDisk\<close> is dropped by its only caller.
\<close>

definition GetID :: "v2_Plugin \<Rightarrow> string" where
  "GetID p = ID (PluginObj p)"

definition GetName :: "v2_Plugin \<Rightarrow> string" where
  "GetName p = Name (PluginObj p)"

definition IsEnabled :: "v2_Plugin \<Rightarrow> bool" where
  "IsEnabled p = Enabled (PluginObj p)"

definition Plugin_Restore :: "ref \<Rightarrow> string \<Rightarrow> state \<Rightarrow> state" where
  "Plugin_Restore p runRoot s = emit (EvPluginRestore p runRoot) s"

definition RemoveFromDisk :: "ref \<Rightarrow> state \<Rightarrow> state" where
  "RemoveFromDisk p s = emit (EvRemoveFromDisk p) s"

text \<open>
  Modelled from the spec: \<^verbatim>\<open>Manager.restore\<close>, the reattach step. It starts
  nothing; it succeeds or fails as the Execution Engine answers.
\<close>

definition pm_restore :: "env \<Rightarrow> ref \<Rightarrow> state \<Rightarrow> error option \<times> state" where
  "pm_restore env p s = (engine_reattach env (heap s p), emit (EvReattach p) s)"

text \<open>
  Modelled from the spec: \<^verbatim>\<open>Manager.enable\<close> (section 4.3). It asks the Execution
  Engine to start a process for the plugin and, on success, marks the record enabled.
  The controller it is given is the one \<^verbatim>\<open>cMap\<close> holds for the plugin.
\<close>

definition enable :: "env \<Rightarrow> ref \<Rightarrow> bool \<Rightarrow> state \<Rightarrow> error option \<times> state" where
  "enable env p force s =
     (let s1 = emit (EvEnable p force) s in
      case engine_start env (heap s p) of
        Some err \<Rightarrow> (Some err, s1)
      | None \<Rightarrow>
          (None, s1\<lparr>heap := (heap s1)(p := (heap s1 p)
                     \<lparr>PluginObj := (PluginObj (heap s1 p))\<lparr>Enabled := True\<rparr>\<rparr>)\<rparr>))"

text \<open>\<^verbatim>\<open>mount.Unmount\<close> and \<^verbatim>\<open>os.MkdirAll\<close>: the call is traced, the world
  answers.\<close>

definition Unmount :: "env \<Rightarrow> string \<Rightarrow> state \<Rightarrow> error option \<times> state" where
  "Unmount env target s = (mount_Unmount env target, emit (EvUnmount target) s)"

definition MkdirAll :: "env \<Rightarrow> string \<Rightarrow> nat \<Rightarrow> state \<Rightarrow> error option \<times> state" where
  "MkdirAll env path perm s = (os_MkdirAll env path perm, emit (EvMkdirAll path perm) s)"

definition logf :: "log_level \<Rightarrow> string \<Rightarrow> logarg list \<Rightarrow> state \<Rightarrow> state" where
  "logf lvl fmt args s = emit (EvLog lvl fmt args) s"

subsection \<open>\<^verbatim>\<open>restorePlugin\<close>, \<^verbatim>\<open>loadPlugin\<close>\<close>

definition restorePlugin :: "env \<Rightarrow> ref \<Rightarrow> state \<Rightarrow> error option \<times> state" where
  "restorePlugin env p s =
     (let s1 = Plugin_Restore p (ExecRoot (config s)) s in
      if IsEnabled (heap s1 p) then pm_restore env p s1 else (None, s1))"

text \<open>\<^verbatim>\<open>loadPlugin\<close> returns a pointer to a fresh record: the next free address.\<close>

definition loadPlugin :: "env \<Rightarrow> string \<Rightarrow> state \<Rightarrow> (error + ref) \<times> state" where
  "loadPlugin env ident s =
     (let p = filepath_Join [Root (config s), ident, configFileName];
          s1 = emit (EvReadFile p) s
      in case os_ReadFile env p of
           Inl err \<Rightarrow> (Inl (Wrap err (''error reading '' @ p)), s1)
         | Inr dt \<Rightarrow>
             (case json_Unmarshal env dt of
                Inl err \<Rightarrow> (Inl (Wrap err (''error decoding '' @ p)), s1)
              | Inr plugin \<Rightarrow>
                  (Inr (next_ref s1),
                   s1\<lparr>heap := (heap s1)(next_ref s1 := plugin),
                      next_ref := Suc (next_ref s1)\<rparr>)))"

subsection \<open>\<^verbatim>\<open>reload\<close>\<close>

text \<open>
  Phase 1, the loop over the directory entries. \<open>plugins\<close> is the Go map under
  construction, as an association list: a key that is already there keeps its place
  and takes the new pointer.
\<close>

fun load_entries ::
  "env \<Rightarrow> string list \<Rightarrow> (string \<times> ref) list \<Rightarrow> state \<Rightarrow> (error + (string \<times> ref) list) \<times> state"
where
  "load_entries env [] plugins s = (Inr plugins, s)"
| "load_entries env (v # dir) plugins s =
     (if validFullID v then
        (case loadPlugin env v s of
           (Inl err, s1) \<Rightarrow> (Inl err, s1)
         | (Inr p, s1) \<Rightarrow>
             load_entries env dir (AList.update (GetID (heap s1 p)) p plugins) s1)
      else load_entries env dir plugins s)"

text \<open>
  The loop over the declared capabilities inside the recovery task. The result is
  \<open>False\<close> when the task returned from inside the loop.
\<close>

definition needs_propagation :: "PluginInterfaceType \<Rightarrow> bool" where
  "needs_propagation typ =
     ((Capability typ = ''volumedriver'' \<or> Capability typ = ''graphdriver'')
      \<and> Prefix typ = ''docker'' \<and> HasPrefix (Version typ) ''1.'')"

fun propagate :: "env \<Rightarrow> ref \<Rightarrow> PluginInterfaceType list \<Rightarrow> state \<Rightarrow> bool \<times> state" where
  "propagate env p [] s = (True, s)"
| "propagate env p (typ # typs) s =
     (if needs_propagation typ then
        (if ConfigPropagatedMount (Config (PluginObj (heap s p))) \<noteq> [] then
           (let target = filepath_Join
                  [Rootfs (heap s p), ConfigPropagatedMount (Config (PluginObj (heap s p)))];
                s1 = s\<lparr>heap := (heap s)(p := (heap s p)\<lparr>PropagatedMount := target\<rparr>)\<rparr>
            in case MkdirAll env target 493 s1 of
                 (Some err, s2) \<Rightarrow>
                   (False, logf Error ''failed to create PropagatedMount directory at %s: %v''
                             [LStr target, LErr err] s2)
               | (None, s2) \<Rightarrow> propagate env p typs s2)
         else propagate env p typs s)
      else propagate env p typs s)"

definition wg_Done :: "state \<Rightarrow> state" where
  "wg_Done s = emit EvWgDone (s\<lparr>wg := wg s - 1\<rparr>)"

definition wg_Add :: "nat \<Rightarrow> state \<Rightarrow> state" where
  "wg_Add n s = emit (EvWgAdd n) (s\<lparr>wg := wg s + int n\<rparr>)"

text \<open>The end of the goroutine's body: the record is published, and the plugin is
  enabled again when the engine did not keep it running.\<close>

definition publish_and_reenable :: "env \<Rightarrow> ref \<Rightarrow> state \<Rightarrow> state" where
  "publish_and_reenable env p s3 =
     (let s4 = Store_Update p s3;
          requiresManualRestore = (\<not> LiveRestoreEnabled (config s4) \<and> IsEnabled (heap s4 p))
      in if requiresManualRestore then
           (case enable env p True s4 of
              (Some err, s5) \<Rightarrow>
                logf Error ''failed to enable plugin '%s': %s''
                  [LStr (GetName (heap s5 p)), LErr err] s5
            | (None, s5) \<Rightarrow> s5)
         else s4)"

text \<open>The body of the goroutine that \<^verbatim>\<open>reload\<close> starts for the plugin \<open>p\<close>,
  with its early returns.\<close>

definition task_body :: "env \<Rightarrow> ref \<Rightarrow> state \<Rightarrow> state" where
  "task_body env p s =
     (case restorePlugin env p s of
        (Some err, s1) \<Rightarrow>
          logf Error ''failed to restore plugin '%s': %s''
            [LStr (GetName (heap s1 p)), LErr err] s1
      | (None, s1) \<Rightarrow>
          (let s2 = (if Rootfs (heap s1 p) \<noteq> [] then
                       s1\<lparr>heap := (heap s1)(p := (heap s1 p)
                            \<lparr>Rootfs := filepath_Join
                               [Root (config s1), ID (PluginObj (heap s1 p)), ''rootfs'']\<rparr>)\<rparr>
                     else s1)
           in case propagate env p (Types (Interface (Config (PluginObj (heap s2 p))))) s2 of
                (False, s3) \<Rightarrow> s3
              | (True, s3) \<Rightarrow> publish_and_reenable env p s3))"

text \<open>\<^verbatim>\<open>defer wg.Done()\<close> runs on every way out of the body.\<close>

definition recover_task :: "env \<Rightarrow> ref \<Rightarrow> state \<Rightarrow> state" where
  "recover_task env p s = wg_Done (task_body env p s)"

text \<open>
  Phase 2. The thread of \<^verbatim>\<open>reload\<close> loops over \<open>plugins\<close> (\<open>todo\<close> is what is
  left of the loop): a controller for the plugin, then \<^verbatim>\<open>go\<close> starts its task, which
  joins \<open>pending\<close>, the goroutines that were started and have not run. After the loop the
  thread is in \<^verbatim>\<open>wg.Wait()\<close>: it returns when the counter is zero and cannot go on
  while it is not. The scheduler's choices say which of the two kinds of step comes
  next; a choice that cannot be taken (no such goroutine, or the thread is blocked in the
  wait) is passed over. When the choices are used up, the thread runs while it can, then
  the pending goroutines in the order they were started. A goroutine's body runs as one
  step. When the thread is blocked and no goroutine is left, nothing can run any more:
  \<^verbatim>\<open>reload\<close> blocks for ever. A counter below zero is a panic of \<^verbatim>\<open>wg.Done\<close>.
\<close>

fun phase2 ::
  "env \<Rightarrow> choice list \<Rightarrow> (string \<times> ref) list \<Rightarrow> (string \<times> ref) list \<Rightarrow> state
     \<Rightarrow> (error option) outcome \<times> state"
where
  "phase2 env (RunTask i # sched) todo pending s =
     (if i < length pending then
        phase2 env sched todo (take i pending @ drop (Suc i) pending)
          (recover_task env (snd (pending ! i)) s)
      else phase2 env sched todo pending s)"
| "phase2 env (RunMain # sched) ((k, p) # todo) pending s =
     phase2 env sched todo (pending @ [(k, p)]) (s\<lparr>cMap := (cMap s)(p \<mapsto> zero_controller)\<rparr>)"
| "phase2 env (RunMain # sched) [] pending s =
     (if wg s = 0 then (Return None, emit EvWgWait s)
      else phase2 env sched [] pending s)"
| "phase2 env [] ((k, p) # todo) pending s =
     phase2 env [] todo (pending @ [(k, p)]) (s\<lparr>cMap := (cMap s)(p \<mapsto> zero_controller)\<rparr>)"
| "phase2 env [] [] ((k, p) # pending) s =
     (if wg s = 0 then (Return None, emit EvWgWait s)
      else phase2 env [] [] pending (recover_task env p s))"
| "phase2 env [] [] [] s =
     (if wg s = 0 then (Return None, emit EvWgWait s)
      else if wg s < 0 then (Panic NegativeWaitGroup, s)
      else (Block, s))"

definition reload :: "env \<Rightarrow> state \<Rightarrow> (error option) outcome \<times> state" where
  "reload env s =
     (let s0 = emit (EvReadDir (Root (config s))) s in
      case os_ReadDir env (Root (config s)) of
        Inl err \<Rightarrow> (Return (Some (Wrap err (''failed to read '' @ Root (config s)))), s0)
      | Inr dir \<Rightarrow>
          (case load_entries env dir [] s0 of
             (Inl err, s1) \<Rightarrow> (Return (Some err), s1)
           | (Inr plugins, s1) \<Rightarrow>
               phase2 env (go_schedule env) plugins []
                 (wg_Add (length plugins) ((Store_SetAll plugins s1)\<lparr>wg := 0\<rparr>))))"

subsection \<open>\<^verbatim>\<open>NewManager\<close>\<close>

definition NewManager :: "env \<Rightarrow> ManagerConfig \<Rightarrow> state \<Rightarrow> (error option) outcome \<times> state" where
  "NewManager env cfg s =
     (let m = s\<lparr>config := cfg\<rparr> in
      case MkdirAll env (Root cfg) 448 m of
        (Some err, m1) \<Rightarrow> (Return (Some (Wrap err (''failed to create '' @ Root cfg))), m1)
      | (None, m1) \<Rightarrow>
          (case MkdirAll env (ExecRoot cfg) 448 m1 of
             (Some err, m2) \<Rightarrow>
               (Return (Some (Wrap err (''failed to create '' @ ExecRoot cfg))), m2)
           | (None, m2) \<Rightarrow>
               (let m3 = emit EvExecutorClient m2 in
                case Executor_Client env of
                  Some err \<Rightarrow> (Return (Some (Wrap err ''failed to create containerd client'')), m3)
                | None \<Rightarrow>
                    (case reload env (m3\<lparr>cMap := Map.empty\<rparr>) of
                       (Return (Some err), m4) \<Rightarrow>
                         (Return (Some (Wrap err ''failed to restore plugins'')), m4)
                     | (out, m4) \<Rightarrow> (out, m4)))))"

subsection \<open>\<^verbatim>\<open>StateChanged\<close>\<close>

text \<open>\<^verbatim>\<open>if c.exitChan != nil { close(c.exitChan) }\<close>: closing a channel that is
  already closed panics.\<close>

definition close_exitChan :: "ref \<Rightarrow> controller \<Rightarrow> state \<Rightarrow> panic + state" where
  "close_exitChan p c s =
     (case exitChan c of
        None \<Rightarrow> Inr s
      | Some ChanOpen \<Rightarrow>
          Inr (emit (EvClose p) (s\<lparr>cMap := (cMap s)(p \<mapsto> c\<lparr>exitChan := Some ChanClosed\<rparr>)\<rparr>))
      | Some ChanClosed \<Rightarrow> Inl CloseOfClosedChannel)"

text \<open>The unmount step: a failure is a warning, and the handler goes on.\<close>

definition unmount_propagated :: "env \<Rightarrow> ref \<Rightarrow> state \<Rightarrow> state" where
  "unmount_propagated env p s =
     (if PropagatedMount (heap s p) \<noteq> [] then
        (case Unmount env (PropagatedMount (heap s p)) s of
           (Some err, s1) \<Rightarrow>
             logf Warn ''Could not unmount %s: %v'' [LStr (PropagatedMount (heap s p)), LErr err] s1
         | (None, s1) \<Rightarrow> s1)
      else s)"

definition StateChanged ::
  "env \<Rightarrow> string \<Rightarrow> State \<Rightarrow> state \<Rightarrow> (error option) outcome \<times> state"
where
  "StateChanged env ident e s =
     (let s0 = logf Debug ''plugin state changed %s %#v'' [LStr ident, LState e] s in
      case e of
        StateExit \<Rightarrow>
          (case Store_GetByID ident s0 of
             Inl err \<Rightarrow> (Return (Some err), s0)
           | Inr p \<Rightarrow>
               (let s1 = emit EvRLock s0 in
                case cMap s1 p of
                  None \<Rightarrow> (Panic NilDereference, s1)
                | Some c \<Rightarrow>
                    (case close_exitChan p c s1 of
                       Inl pk \<Rightarrow> (Panic pk, s1)
                     | Inr s2 \<Rightarrow>
                         (let s3 = emit EvRUnlock s2;
                              s4 = RemoveFromDisk p s3;
                              s5 = unmount_propagated env p s4
                          in if restart c then (Return None, snd (enable env p True s5))
                             else (Return None, s5)))))
      | StateOther other \<Rightarrow> (Return None, s0))"

section \<open>Notions used to state the properties\<close>

text \<open>What \<^verbatim>\<open>loadPlugin\<close> obtains for the directory entry \<open>v\<close>: the decoded
  record, or \<open>None\<close> when \<^verbatim>\<open>config.json\<close> is missing or unreadable or does not
  decode.\<close>

definition decode_entry :: "env \<Rightarrow> string \<Rightarrow> string \<Rightarrow> v2_Plugin option" where
  "decode_entry env root v =
     (case os_ReadFile env (filepath_Join [root, v, configFileName]) of
        Inl err \<Rightarrow> None
      | Inr dt \<Rightarrow> (case json_Unmarshal env dt of Inl err \<Rightarrow> None | Inr plugin \<Rightarrow> Some plugin))"

text \<open>The records of the entries that match the full-ID format, in directory order.\<close>

definition entry_records :: "env \<Rightarrow> string \<Rightarrow> string list \<Rightarrow> v2_Plugin list" where
  "entry_records env root dir = List.map_filter (decode_entry env root) (filter validFullID dir)"

text \<open>The outcome of the reattach step of a task for the record \<open>pl\<close>.\<close>

definition reattach_result :: "env \<Rightarrow> v2_Plugin \<Rightarrow> error option" where
  "reattach_result env pl = (if IsEnabled pl then engine_reattach env pl else None)"

text \<open>The value the task gives to \<^verbatim>\<open>Rootfs\<close>, whether it computes a
  \<^verbatim>\<open>PropagatedMount\<close>, and which.\<close>

definition rewritten_rootfs :: "ManagerConfig \<Rightarrow> v2_Plugin \<Rightarrow> string" where
  "rewritten_rootfs cfg pl =
     (if Rootfs pl \<noteq> [] then filepath_Join [Root cfg, ID (PluginObj pl), ''rootfs'']
      else Rootfs pl)"

definition wants_propagation :: "v2_Plugin \<Rightarrow> bool" where
  "wants_propagation pl =
     (list_ex needs_propagation (Types (Interface (Config (PluginObj pl))))
      \<and> ConfigPropagatedMount (Config (PluginObj pl)) \<noteq> [])"

definition mount_target :: "ManagerConfig \<Rightarrow> v2_Plugin \<Rightarrow> string" where
  "mount_target cfg pl =
     filepath_Join [rewritten_rootfs cfg pl, ConfigPropagatedMount (Config (PluginObj pl))]"

section \<open>Concrete runs\<close>

text \<open>Inputs on which the theorems below are run.\<close>

definition zero_Plugin :: v2_Plugin where
  "zero_Plugin =
     \<lparr>PluginObj = \<lparr>ID = [], Name = [], Enabled = False,
                   Config = \<lparr>Interface = \<lparr>Types = []\<rparr>, ConfigPropagatedMount = []\<rparr>\<rparr>,
      PropagatedMount = [], Rootfs = []\<rparr>"

definition ex_cfg :: ManagerConfig where
  "ex_cfg = \<lparr>LiveRestoreEnabled = False, Root = ''/plugins'', ExecRoot = ''/run/plugins''\<rparr>"

text \<open>An enabled volume driver, as a running Manager holds it.\<close>

definition ex_volume_plugin :: v2_Plugin where
  "ex_volume_plugin =
     \<lparr>PluginObj = \<lparr>ID = ''p1'', Name = ''vol'', Enabled = True,
                   Config = \<lparr>Interface = \<lparr>Types = [\<lparr>Capability = ''volumedriver'',
                                Prefix = ''docker'', Version = ''1.0''\<rparr>]\<rparr>,
                             ConfigPropagatedMount = ''/data''\<rparr>\<rparr>,
      PropagatedMount = ''/plugins/p1/rootfs/data'', Rootfs = ''/plugins/p1/rootfs''\<rparr>"

text \<open>A world in which every unmount fails and everything else succeeds.\<close>

definition ex_env :: env where
  "ex_env =
     \<lparr>os_ReadDir = (\<lambda>d. Inl (Errno ''ENOENT'')),
      os_ReadFile = (\<lambda>f. Inl (Errno ''ENOENT'')),
      json_Unmarshal = (\<lambda>dt. Inl (Errno ''unexpected end of JSON input'')),
      os_MkdirAll = (\<lambda>path perm. None),
      mount_Unmount = (\<lambda>target. Some (Errno ''EBUSY'')),
      Executor_Client = None,
      engine_reattach = (\<lambda>p. None),
      engine_start = (\<lambda>p. None),
      go_schedule = []\<rparr>"

text \<open>A Manager that tracks the volume driver at address 0, with the controller table
  \<open>cm\<close>.\<close>

definition ex_state :: "(ref \<rightharpoonup> controller) \<Rightarrow> state" where
  "ex_state cm =
     \<lparr>config = ex_cfg, cMap = cm, heap = (\<lambda>r. zero_Plugin)(0 := ex_volume_plugin),
      next_ref = 1, store = [''p1'' \<mapsto> 0], wg = 0, trace = []\<rparr>"

definition ex_ctl :: "chan \<Rightarrow> controller" where
  "ex_ctl ch = \<lparr>restart = True, exitChan = Some ch, timeoutInSecs = 10\<rparr>"

text \<open>A world given by tables: the entries of each directory, the content of each file,
  what each content decodes to, the directories that cannot be created, and the
  identities of the plugins whose reattach and whose start fail. Its scheduler lets the
  thread of \<^verbatim>\<open>reload\<close> start two goroutines and reach the wait, then runs the
  goroutine that was started second.\<close>

definition ex_world ::
  "(string \<times> string list) list \<Rightarrow> (string \<times> string) list \<Rightarrow> (string \<times> v2_Plugin) list
     \<Rightarrow> string list \<Rightarrow> string list \<Rightarrow> string list \<Rightarrow> env"
where
  "ex_world dirs files decoded no_mkdir no_reattach no_start =
     \<lparr>os_ReadDir = (\<lambda>d. case map_of dirs d of None \<Rightarrow> Inl (Errno ''ENOENT'')
                                            | Some names \<Rightarrow> Inr names),
      os_ReadFile = (\<lambda>f. case map_of files f of None \<Rightarrow> Inl (Errno ''ENOENT'')
                                             | Some dt \<Rightarrow> Inr dt),
      json_Unmarshal = (\<lambda>dt. case map_of decoded dt of
                                None \<Rightarrow> Inl (Errno ''invalid character'')
                              | Some pl \<Rightarrow> Inr pl),
      os_MkdirAll = (\<lambda>path perm. if path \<in> set no_mkdir then Some (Errno ''EACCES'')
                                  else None),
      mount_Unmount = (\<lambda>target. None),
      Executor_Client = None,
      engine_reattach = (\<lambda>pl. if ID (PluginObj pl) \<in> set no_reattach
                                then Some (Errno ''no such process'') else None),
      engine_start = (\<lambda>pl. if ID (PluginObj pl) \<in> set no_start
                             then Some (Errno ''exec format error'') else None),
      go_schedule = [RunMain, RunMain, RunMain, RunTask 1]\<rparr>"

text \<open>A record as \<^verbatim>\<open>loadPlugin\<close> may decode it: an enabled volume driver with a
  persisted \<^verbatim>\<open>Rootfs\<close>, and the state in which its recovery task starts.\<close>

definition ex_loaded_volume :: v2_Plugin where
  "ex_loaded_volume =
     \<lparr>PluginObj = \<lparr>ID = ''p1'', Name = ''vol'', Enabled = True,
                   Config = \<lparr>Interface = \<lparr>Types = [\<lparr>Capability = ''volumedriver'',
                                Prefix = ''docker'', Version = ''1.0''\<rparr>]\<rparr>,
                             ConfigPropagatedMount = ''/data''\<rparr>\<rparr>,
      PropagatedMount = [], Rootfs = ''/old/rootfs''\<rparr>"

text \<open>A disabled plugin with another capability and an empty \<^verbatim>\<open>Rootfs\<close>.\<close>

definition ex_loaded_authz :: v2_Plugin where
  "ex_loaded_authz =
     \<lparr>PluginObj = \<lparr>ID = ''p2'', Name = ''auth'', Enabled = False,
                   Config = \<lparr>Interface = \<lparr>Types = [\<lparr>Capability = ''authz'',
                                Prefix = ''docker'', Version = ''1.0''\<rparr>]\<rparr>,
                             ConfigPropagatedMount = []\<rparr>\<rparr>,
      PropagatedMount = [], Rootfs = []\<rparr>"

text \<open>The state after Phase 1 and \<^verbatim>\<open>SetAll\<close> for the record \<open>pl\<close>, loaded at
  address 0, with its fresh controller.\<close>

definition ex_loaded :: "v2_Plugin \<Rightarrow> state" where
  "ex_loaded pl =
     \<lparr>config = ex_cfg, cMap = [0 \<mapsto> zero_controller], heap = (\<lambda>r. zero_Plugin)(0 := pl),
      next_ref = 1, store = [ID (PluginObj pl) \<mapsto> 0], wg = 1, trace = []\<rparr>"

text \<open>The table that Phase 1 builds is well formed in a state: no identity and no
  pointer occurs twice, every pointer is allocated, and every record is filed under its
  own identity.\<close>

definition table_ok :: "(string \<times> ref) list \<Rightarrow> state \<Rightarrow> bool" where
  "table_ok plugins s =
     (distinct (map fst plugins) \<and> distinct (map snd plugins)
      \<and> (\<forall>(k, r) \<in> set plugins. r < next_ref s \<and> ID (PluginObj (heap s r)) = k))"

text \<open>The task for a record gets as far as its publish step: the reattach step succeeds
  and, if a directory has to be created, it can be.\<close>

definition task_publishes :: "env \<Rightarrow> ManagerConfig \<Rightarrow> v2_Plugin \<Rightarrow> bool" where
  "task_publishes env cfg pl =
     (reattach_result env pl = None
      \<and> (\<not> wants_propagation pl \<or> os_MkdirAll env (mount_target cfg pl) 493 = None))"

text \<open>Two identities in the full-ID format.\<close>

definition id_a :: string where
  "id_a = ''aaaaaaaaaaaaaaaaaaaaaaaaaaaaaaaaaaaaaaaaaaaaaaaaaaaaaaaaaaaaaaaa''"

definition id_b :: string where
  "id_b = ''bbbbbbbbbbbbbbbbbbbbbbbbbbbbbbbbbbbbbbbbbbbbbbbbbbbbbbbbbbbbbbbb''"

text \<open>The records that the two \<^verbatim>\<open>config.json\<close> files decode to: an enabled volume
  driver with a persisted \<^verbatim>\<open>Rootfs\<close>, and a disabled plugin with another capability.\<close>

definition plugin_a :: v2_Plugin where
  "plugin_a =
     \<lparr>PluginObj = \<lparr>ID = id_a, Name = ''vol'', Enabled = True,
                   Config = \<lparr>Interface = \<lparr>Types = [\<lparr>Capability = ''volumedriver'',
                                Prefix = ''docker'', Version = ''1.0''\<rparr>]\<rparr>,
                             ConfigPropagatedMount = ''/data''\<rparr>\<rparr>,
      PropagatedMount = [], Rootfs = ''/old/rootfs''\<rparr>"

definition plugin_b :: v2_Plugin where
  "plugin_b =
     \<lparr>PluginObj = \<lparr>ID = id_b, Name = ''auth'', Enabled = True,
                   Config = \<lparr>Interface = \<lparr>Types = [\<lparr>Capability = ''authz'',
                                Prefix = ''docker'', Version = ''1.0''\<rparr>]\<rparr>,
                             ConfigPropagatedMount = []\<rparr>\<rparr>,
      PropagatedMount = [], Rootfs = []\<rparr>"

text \<open>The root directory holds the two plugins and a directory \<^verbatim>\<open>tmp\<close> with a valid
  \<^verbatim>\<open>config.json\<close>.\<close>

definition ex_dirs :: "(string \<times> string list) list" where
  "ex_dirs = [(''/plugins'', [id_a, id_b, ''tmp''])]"

definition ex_files :: "(string \<times> string) list" where
  "ex_files = [(''/plugins/'' @ id_a @ ''/config.json'', ''A''),
               (''/plugins/'' @ id_b @ ''/config.json'', ''B''),
               (''/plugins/tmp/config.json'', ''A'')]"

definition ex_decoded :: "(string \<times> v2_Plugin) list" where
  "ex_decoded = [(''A'', plugin_a), (''B'', plugin_b)]"

text \<open>The same directory when the second plugin's \<^verbatim>\<open>config.json\<close> is corrupt.\<close>

definition ex_decoded_corrupt :: "(string \<times> v2_Plugin) list" where
  "ex_decoded_corrupt = [(''A'', plugin_a)]"

text \<open>The state before \<^verbatim>\<open>NewManager\<close>: an empty Store, nothing allocated.\<close>

definition ex_init :: state where
  "ex_init = \<lparr>config = ex_cfg, cMap = Map.empty, heap = (\<lambda>r. zero_Plugin), next_ref = 0,
              store = Map.empty, wg = 0, trace = []\<rparr>"

text \<open>The record that Phase 1 files under each identity: the one of the last matching
  entry whose \<^verbatim>\<open>config.json\<close> declares that identity.\<close>

definition loaded_table :: "env \<Rightarrow> string \<Rightarrow> string list \<Rightarrow> (string \<rightharpoonup> v2_Plugin)" where
  "loaded_table env root dir =
     map_of (rev (map (\<lambda>pl. (ID (PluginObj pl), pl)) (entry_records env root dir)))"

text \<open>The paths of the files that a run read.\<close>

definition read_paths :: "event list \<Rightarrow> string list" where
  "read_paths evs =
     List.map_filter (\<lambda>e. case e of EvReadFile path \<Rightarrow> Some path | _ \<Rightarrow> None) evs"

text \<open>The error line that the task of a record writes when it does not get to its
  publish step: for a failed reattach it names the plugin and the error, for a directory
  that cannot be created it names the directory and the error. \<open>None\<close> when the task
  publishes.\<close>

definition failure_log :: "env \<Rightarrow> ManagerConfig \<Rightarrow> v2_Plugin \<Rightarrow> event option" where
  "failure_log env cfg pl =
     (case reattach_result env pl of
        Some err \<Rightarrow>
          Some (EvLog Error ''failed to restore plugin '%s': %s'' [LStr (GetName pl), LErr err])
      | None \<Rightarrow>
          (if wants_propagation pl then
             (case os_MkdirAll env (mount_target cfg pl) 493 of
                Some err \<Rightarrow>
                  Some (EvLog Error ''failed to create PropagatedMount directory at %s: %v''
                          [LStr (mount_target cfg pl), LErr err])
              | None \<Rightarrow> None)
           else None))"

text \<open>Between \<open>s\<close> and \<open>s'\<close> the tasks of the table \<open>U\<close> have run, each once and
  nothing else: what they appended to the trace, and what they left in the Store and in
  the heap.\<close>

definition tasks_ran :: "env \<Rightarrow> (string \<times> ref) list \<Rightarrow> state \<Rightarrow> state \<Rightarrow> bool" where
  "tasks_ran env U s s' =
     (\<exists>evs. trace s' = trace s @ evs
        \<and> read_paths evs = [] \<and> (\<forall>al. EvSetAll al \<notin> set evs) \<and> EvWgWait \<notin> set evs
        \<and> length (filter ((=) EvWgDone) evs) = length U
        \<and> (\<forall>(k, r) \<in> set U.
              EvUpdate r \<in> set evs = task_publishes env (config s) (heap s r))
        \<and> (\<forall>q. EvUpdate q \<in> set evs \<longrightarrow> q \<in> snd ` set U)
        \<and> (\<forall>(k, r) \<in> set U. \<forall>e. failure_log env (config s) (heap s r) = Some e
              \<longrightarrow> e \<in> set evs)
        \<and> (\<forall>k. store s' k =
              (if \<exists>r. (k, r) \<in> set U \<and> task_publishes env (config s) (heap s r)
               then map_of U k else store s k))
        \<and> wg s' = wg s - int (length U)
        \<and> config s' = config s
        \<and> (\<forall>q. PluginObj (heap s' q) = PluginObj (heap s q))
        \<and> (\<forall>q. q \<notin> snd ` set U \<longrightarrow> heap s' q = heap s q))"

text \<open>A plugin with another capability whose \<^verbatim>\<open>config.json\<close> carries a
  \<^verbatim>\<open>PropagatedMount\<close> from an earlier run.\<close>

definition ex_loaded_stale :: v2_Plugin where
  "ex_loaded_stale =
     \<lparr>PluginObj = \<lparr>ID = ''p3'', Name = ''auth'', Enabled = False,
                   Config = \<lparr>Interface = \<lparr>Types = [\<lparr>Capability = ''authz'',
                                Prefix = ''docker'', Version = ''1.0''\<rparr>]\<rparr>,
                             ConfigPropagatedMount = ''/data''\<rparr>\<rparr>,
      PropagatedMount = ''/plugins/p3/rootfs/data'', Rootfs = ''/plugins/p3/rootfs''\<rparr>"

section \<open>Basic facts\<close>

lemma emit_sel [simp]:
  "trace (emit e s) = trace s @ [e]" "cMap (emit e s) = cMap s" "heap (emit e s) = heap s"
  "store (emit e s) = store s" "config (emit e s) = config s" "wg (emit e s) = wg s"
  "next_ref (emit e s) = next_ref s"
  by (simp_all add: emit_def)

lemma events_since_append: "trace s' = trace s @ evs \<Longrightarrow> events_since s s' = evs"
  by (simp add: events_since_def)

lemma chan_cases: "x \<noteq> Some ChanClosed \<Longrightarrow> x = None \<or> x = Some ChanOpen"
  by (cases x) (auto intro: chan.exhaust)

lemma close_exitChan_ok:
  assumes "exitChan c \<noteq> Some ChanClosed"
  shows "\<exists>s2. close_exitChan p c s = Inr s2
     \<and> trace s2 = trace s @ (if exitChan c = Some ChanOpen then [EvClose p] else [])
     \<and> cMap s2 = (if exitChan c = Some ChanOpen
                   then (cMap s)(p \<mapsto> c\<lparr>exitChan := Some ChanClosed\<rparr>) else cMap s)
     \<and> heap s2 = heap s \<and> store s2 = store s \<and> config s2 = config s"
  using chan_cases [OF assms] by (auto simp add: close_exitChan_def)

lemma unmount_propagated_sel:
  "trace (unmount_propagated env p s) = trace s @
     (if PropagatedMount (heap s p) \<noteq> [] then
        EvUnmount (PropagatedMount (heap s p))
        # (case mount_Unmount env (PropagatedMount (heap s p)) of
             Some err \<Rightarrow> [EvLog Warn ''Could not unmount %s: %v''
                            [LStr (PropagatedMount (heap s p)), LErr err]]
           | None \<Rightarrow> [])
      else [])"
  "cMap (unmount_propagated env p s) = cMap s"
  "heap (unmount_propagated env p s) = heap s"
  "store (unmount_propagated env p s) = store s"
  "config (unmount_propagated env p s) = config s"
  by (simp_all add: unmount_propagated_def Unmount_def logf_def split: option.split)

lemma enable_sel:
  "trace (snd (enable env p force s)) = trace s @ [EvEnable p force]"
  "cMap (snd (enable env p force s)) = cMap s"
  "store (snd (enable env p force s)) = store s"
  "config (snd (enable env p force s)) = config s"
  "wg (snd (enable env p force s)) = wg s"
  "next_ref (snd (enable env p force s)) = next_ref s"
  by (simp_all add: enable_def Let_def split: option.split)

section \<open>\<^verbatim>\<open>StateChanged\<close>\<close>

lemmas StateChanged_defs =
  StateChanged_def Store_GetByID_def logf_def emit_def close_exitChan_def RemoveFromDisk_def
  unmount_propagated_def Unmount_def enable_def events_since_def

lemma StateChanged_exit_known:
  assumes "store s ident = Some p" and "cMap s p = Some c"
    and "close_exitChan p c
           (emit EvRLock (logf Debug ''plugin state changed %s %#v''
                            [LStr ident, LState StateExit] s)) = Inr s2"
  shows "StateChanged env ident StateExit s =
     (Return None,
      (let s5 = unmount_propagated env p (RemoveFromDisk p (emit EvRUnlock s2))
       in if restart c then snd (enable env p True s5) else s5))"
  using assms by (simp add: StateChanged_def Store_GetByID_def logf_def Let_def)

text \<open>
  C5. An Exit notification for an identity that the Plugin Store does not know returns
  the Store's error to the caller. Nothing is closed, removed, unmounted or enabled, and
  no controller changes: the state after the call is the state before it, with the one
  debug line that every call logs.
\<close>

theorem StateChanged_unknown_identity:
  assumes "store s ident = None"
  shows "StateChanged env ident StateExit s =
           (Return (Some (ErrNotFound ident)),
            s\<lparr>trace := trace s @
                 [EvLog Debug ''plugin state changed %s %#v'' [LStr ident, LState StateExit]]\<rparr>)"
  using assms by (simp add: StateChanged_defs)

theorem StateChanged_unknown_identity_witness:
  "store (ex_state [0 \<mapsto> ex_ctl ChanOpen]) ''p2'' = None \<and>
   StateChanged ex_env ''p2'' StateExit (ex_state [0 \<mapsto> ex_ctl ChanOpen]) =
     (Return (Some (ErrNotFound ''p2'')),
      (ex_state [0 \<mapsto> ex_ctl ChanOpen])\<lparr>trace :=
         [EvLog Debug ''plugin state changed %s %#v'' [LStr ''p2'', LState StateExit]]\<rparr>)"
  using StateChanged_unknown_identity [of "ex_state [0 \<mapsto> ex_ctl ChanOpen]" "''p2''" ex_env]
  by (simp add: ex_state_def)

text \<open>
  C9. When the Plugin Store resolves the identity, the handler faults on a nil controller
  exactly when the controller table has no entry for the record: the lookup must find a
  controller for the handler to get past its first access. The fault happens with the
  read lock taken and before anything else is done.
\<close>

theorem StateChanged_nil_controller:
  assumes "store s ident = Some p"
  shows "(cMap s p = None) = (fst (StateChanged env ident StateExit s) = Panic NilDereference)
       \<and> (cMap s p = None \<longrightarrow>
            StateChanged env ident StateExit s =
              (Panic NilDereference,
               s\<lparr>trace := trace s @
                 [EvLog Debug ''plugin state changed %s %#v'' [LStr ident, LState StateExit],
                  EvRLock]\<rparr>))"
  using assms
  by (auto simp add: StateChanged_defs Let_def split: option.splits chan.splits)

theorem StateChanged_nil_controller_witness:
  "store (ex_state Map.empty) ''p1'' = Some 0 \<and> cMap (ex_state Map.empty) 0 = None \<and>
   StateChanged ex_env ''p1'' StateExit (ex_state Map.empty) =
     (Panic NilDereference,
      (ex_state Map.empty)\<lparr>trace :=
         [EvLog Debug ''plugin state changed %s %#v'' [LStr ''p1'', LState StateExit],
          EvRLock]\<rparr>)"
  using StateChanged_nil_controller [of "ex_state Map.empty" "''p1''" 0 ex_env]
  by (simp add: ex_state_def)

text \<open>
  C2, as stated, fails on a controller whose exit signal is already closed: closing it
  again panics, and the handler removes nothing, unmounts nothing and enables nothing.
\<close>

theorem StateChanged_double_close_counterexample:
  "store (ex_state [0 \<mapsto> ex_ctl ChanClosed]) ''p1'' = Some 0
   \<and> cMap (ex_state [0 \<mapsto> ex_ctl ChanClosed]) 0 = Some (ex_ctl ChanClosed)
   \<and> fst (StateChanged ex_env ''p1'' StateExit (ex_state [0 \<mapsto> ex_ctl ChanClosed]))
       = Panic CloseOfClosedChannel
   \<and> events_since (ex_state [0 \<mapsto> ex_ctl ChanClosed])
        (snd (StateChanged ex_env ''p1'' StateExit (ex_state [0 \<mapsto> ex_ctl ChanClosed])))
       = [EvLog Debug ''plugin state changed %s %#v'' [LStr ''p1'', LState StateExit], EvRLock]"
  by (simp add: StateChanged_defs ex_state_def ex_ctl_def)

text \<open>
  C2, amended. For an Exit notification whose identity the Store resolves, whose record
  has a controller, and whose exit signal is not already closed, the handler returns
  nil and does, in this order: take the read lock; close the exit signal if the controller
  has one; release the lock; remove the on-disk state; if \<^verbatim>\<open>PropagatedMount\<close> is
  not empty, try to unmount it, a failure being logged as a warning; and call enable
  (with force) exactly when the controller's restart flag, read under the lock, was set.
  Afterwards the controller's exit signal is closed if it had one.
\<close>

theorem StateChanged_exit_sequence:
  assumes "store s ident = Some p" and "cMap s p = Some c" and "exitChan c \<noteq> Some ChanClosed"
  shows "fst (StateChanged env ident StateExit s) = Return None
     \<and> events_since s (snd (StateChanged env ident StateExit s)) =
         [EvLog Debug ''plugin state changed %s %#v'' [LStr ident, LState StateExit], EvRLock]
         @ (if exitChan c = Some ChanOpen then [EvClose p] else [])
         @ [EvRUnlock, EvRemoveFromDisk p]
         @ (if PropagatedMount (heap s p) \<noteq> [] then
              EvUnmount (PropagatedMount (heap s p))
              # (case mount_Unmount env (PropagatedMount (heap s p)) of
                   Some err \<Rightarrow> [EvLog Warn ''Could not unmount %s: %v''
                                  [LStr (PropagatedMount (heap s p)), LErr err]]
                 | None \<Rightarrow> [])
            else [])
         @ (if restart c then [EvEnable p True] else [])
     \<and> cMap (snd (StateChanged env ident StateExit s)) p =
         Some (c\<lparr>exitChan := map_option (\<lambda>_. ChanClosed) (exitChan c)\<rparr>)"
proof -
  let ?s1 = "emit EvRLock (logf Debug ''plugin state changed %s %#v''
                            [LStr ident, LState StateExit] s)"
  from close_exitChan_ok [OF assms(3), of p ?s1] obtain s2 where
    cl: "close_exitChan p c ?s1 = Inr s2"
    and tr2: "trace s2 = trace ?s1 @ (if exitChan c = Some ChanOpen then [EvClose p] else [])"
    and cm2: "cMap s2 = (if exitChan c = Some ChanOpen
                   then (cMap ?s1)(p \<mapsto> c\<lparr>exitChan := Some ChanClosed\<rparr>) else cMap ?s1)"
    and hp2: "heap s2 = heap ?s1"
    by blast
  let ?s4 = "RemoveFromDisk p (emit EvRUnlock s2)"
  let ?s5 = "unmount_propagated env p ?s4"
  let ?s6 = "if restart c then snd (enable env p True ?s5) else ?s5"
  have run: "StateChanged env ident StateExit s = (Return None, ?s6)"
    using StateChanged_exit_known [OF assms(1,2) cl] by (simp add: Let_def)
  have hp4: "heap ?s4 = heap s"
    using hp2 by (simp add: RemoveFromDisk_def logf_def)
  have tr4: "trace ?s4 = trace s @
         [EvLog Debug ''plugin state changed %s %#v'' [LStr ident, LState StateExit], EvRLock]
         @ (if exitChan c = Some ChanOpen then [EvClose p] else [])
         @ [EvRUnlock, EvRemoveFromDisk p]"
    using tr2 by (simp add: RemoveFromDisk_def logf_def)
  have tr5: "trace ?s5 = trace ?s4 @
         (if PropagatedMount (heap s p) \<noteq> [] then
              EvUnmount (PropagatedMount (heap s p))
              # (case mount_Unmount env (PropagatedMount (heap s p)) of
                   Some err \<Rightarrow> [EvLog Warn ''Could not unmount %s: %v''
                                  [LStr (PropagatedMount (heap s p)), LErr err]]
                 | None \<Rightarrow> [])
            else [])"
    unfolding unmount_propagated_sel(1) hp4 ..
  have tr6: "trace ?s6 = trace ?s5 @ (if restart c then [EvEnable p True] else [])"
    by (simp add: enable_sel)
  have cm6: "cMap ?s6 = cMap s2"
    by (simp add: enable_sel unmount_propagated_sel RemoveFromDisk_def)
  have c1: "fst (StateChanged env ident StateExit s) = Return None"
    using run by simp
  have c2: "events_since s (snd (StateChanged env ident StateExit s)) =
         [EvLog Debug ''plugin state changed %s %#v'' [LStr ident, LState StateExit], EvRLock]
         @ (if exitChan c = Some ChanOpen then [EvClose p] else [])
         @ [EvRUnlock, EvRemoveFromDisk p]
         @ (if PropagatedMount (heap s p) \<noteq> [] then
              EvUnmount (PropagatedMount (heap s p))
              # (case mount_Unmount env (PropagatedMount (heap s p)) of
                   Some err \<Rightarrow> [EvLog Warn ''Could not unmount %s: %v''
                                  [LStr (PropagatedMount (heap s p)), LErr err]]
                 | None \<Rightarrow> [])
            else [])
         @ (if restart c then [EvEnable p True] else [])"
    unfolding run snd_conv
    by (rule events_since_append) (simp only: tr6 tr5 tr4 append_assoc)
  have c3: "cMap (snd (StateChanged env ident StateExit s)) p =
         Some (c\<lparr>exitChan := map_option (\<lambda>_. ChanClosed) (exitChan c)\<rparr>)"
    unfolding run snd_conv cm6 cm2
    using assms(2,3) chan_cases [OF assms(3)] by (auto simp add: logf_def)
  from c1 c2 c3 show ?thesis by blast
qed

theorem StateChanged_exit_sequence_witness:
  "store (ex_state [0 \<mapsto> ex_ctl ChanOpen]) ''p1'' = Some 0
   \<and> cMap (ex_state [0 \<mapsto> ex_ctl ChanOpen]) 0 = Some (ex_ctl ChanOpen)
   \<and> exitChan (ex_ctl ChanOpen) \<noteq> Some ChanClosed
   \<and> fst (StateChanged ex_env ''p1'' StateExit (ex_state [0 \<mapsto> ex_ctl ChanOpen])) = Return None
   \<and> events_since (ex_state [0 \<mapsto> ex_ctl ChanOpen])
        (snd (StateChanged ex_env ''p1'' StateExit (ex_state [0 \<mapsto> ex_ctl ChanOpen])))
       = [EvLog Debug ''plugin state changed %s %#v'' [LStr ''p1'', LState StateExit], EvRLock,
          EvClose 0, EvRUnlock, EvRemoveFromDisk 0, EvUnmount ''/plugins/p1/rootfs/data'',
          EvLog Warn ''Could not unmount %s: %v''
            [LStr ''/plugins/p1/rootfs/data'', LErr (Errno ''EBUSY'')],
          EvEnable 0 True]
   \<and> cMap (snd (StateChanged ex_env ''p1'' StateExit (ex_state [0 \<mapsto> ex_ctl ChanOpen]))) 0
       = Some (ex_ctl ChanClosed)"
  using StateChanged_exit_sequence
          [of "ex_state [0 \<mapsto> ex_ctl ChanOpen]" "''p1''" 0 "ex_ctl ChanOpen" ex_env]
  by (simp add: ex_state_def ex_env_def ex_volume_plugin_def ex_ctl_def)

section \<open>The recovery task\<close>


lemma restorePlugin_closed:
  "restorePlugin env p s =
     (reattach_result env (heap s p),
      s\<lparr>trace := trace s @ EvPluginRestore p (ExecRoot (config s))
                  # (if IsEnabled (heap s p) then [EvReattach p] else [])\<rparr>)"
  by (simp add: restorePlugin_def reattach_result_def Plugin_Restore_def pm_restore_def emit_def)

lemma propagate_closed:
  assumes "cpm = ConfigPropagatedMount (Config (PluginObj (heap s p)))"
    and "target = filepath_Join [Rootfs (heap s p), cpm]"
  shows "propagate env p typs s =
     (if filter needs_propagation typs = [] \<or> cpm = [] then (True, s)
      else
        (case os_MkdirAll env target 493 of
           None \<Rightarrow>
             (True,
              s\<lparr>heap := (heap s)(p := (heap s p)\<lparr>PropagatedMount := target\<rparr>),
                trace := trace s @ replicate (length (filter needs_propagation typs))
                   (EvMkdirAll target 493)\<rparr>)
         | Some err \<Rightarrow>
             (False,
              s\<lparr>heap := (heap s)(p := (heap s p)\<lparr>PropagatedMount := target\<rparr>),
                trace := trace s @
                   [EvMkdirAll target 493,
                    EvLog Error ''failed to create PropagatedMount directory at %s: %v''
                      [LStr target, LErr err]]\<rparr>)))"
  using assms
proof (induction typs arbitrary: s)
  case Nil
  show ?case by simp
next
  case (Cons ty tys)
  note IH = Cons.IH
  show ?case
  proof (cases "needs_propagation ty")
    case False
    then show ?thesis
      using IH [of s, OF Cons.prems] by (simp split: option.split)
  next
    case np: True
    show ?thesis
    proof (cases "cpm = []")
      case True
      then show ?thesis
        using IH [of s, OF Cons.prems] np Cons.prems(1) [symmetric] by (simp split: option.split)
    next
      case ne: False
      show ?thesis
      proof (cases "os_MkdirAll env target 493")
        case (Some err)
        with np ne Cons.prems show ?thesis
          by (simp add: Let_def MkdirAll_def logf_def emit_def)
      next
        case None
        let ?s2 = "emit (EvMkdirAll target 493)
                     (s\<lparr>heap := (heap s)(p := (heap s p)\<lparr>PropagatedMount := target\<rparr>)\<rparr>)"
        have step: "propagate env p (ty # tys) s = propagate env p tys ?s2"
          using np ne None Cons.prems by (simp add: Let_def MkdirAll_def)
        have cpm2: "cpm = ConfigPropagatedMount (Config (PluginObj (heap ?s2 p)))"
          using Cons.prems by simp
        have tg2: "target = filepath_Join [Rootfs (heap ?s2 p), cpm]"
          using Cons.prems by simp
        show ?thesis
          unfolding step IH [of ?s2, OF cpm2 tg2]
          using np ne None by (simp add: emit_def replicate_app_Cons_same split: option.split)
      qed
    qed
  qed
qed

lemma reattach_failed_enabled: "reattach_result env pl = Some err \<Longrightarrow> IsEnabled pl"
  by (simp add: reattach_result_def split: if_splits)

lemma task_body_reattach_failed:
  assumes "reattach_result env (heap s p) = Some err"
  shows "task_body env p s =
     s\<lparr>trace := trace s @
         [EvPluginRestore p (ExecRoot (config s)), EvReattach p,
          EvLog Error ''failed to restore plugin '%s': %s''
            [LStr (GetName (heap s p)), LErr err]]\<rparr>"
  using assms reattach_failed_enabled [OF assms]
  by (simp add: task_body_def restorePlugin_closed logf_def emit_def)

lemma wants_propagation_filter:
  "wants_propagation pl =
     (\<not> (filter needs_propagation (Types (Interface (Config (PluginObj pl)))) = []
         \<or> ConfigPropagatedMount (Config (PluginObj pl)) = []))"
  by (auto simp add: wants_propagation_def list_ex_iff filter_empty_conv)

lemma Rootfs_self_update: "Rootfs pl = x \<Longrightarrow> pl\<lparr>Rootfs := x\<rparr> = pl"
  by (cases pl) simp

text \<open>The state in which the loop over the capabilities starts.\<close>

lemma task_body_reattached:
  assumes "reattach_result env (heap s p) = None"
  shows "task_body env p s =
     (case propagate env p (Types (Interface (Config (PluginObj (heap s p)))))
             (s\<lparr>trace := trace s @ EvPluginRestore p (ExecRoot (config s))
                    # (if IsEnabled (heap s p) then [EvReattach p] else []),
                 heap := (heap s)(p := (heap s p)
                    \<lparr>Rootfs := rewritten_rootfs (config s) (heap s p)\<rparr>)\<rparr>) of
        (False, s3) \<Rightarrow> s3
      | (True, s3) \<Rightarrow> publish_and_reenable env p s3)"
  using assms
  by (simp add: task_body_def restorePlugin_closed rewritten_rootfs_def Rootfs_self_update
        Let_def)

lemma task_body_mkdir_failed:
  assumes "reattach_result env (heap s p) = None"
    and "wants_propagation (heap s p)"
    and "os_MkdirAll env (mount_target (config s) (heap s p)) 493 = Some err"
  shows "task_body env p s =
     s\<lparr>heap := (heap s)(p := (heap s p)
            \<lparr>Rootfs := rewritten_rootfs (config s) (heap s p),
             PropagatedMount := mount_target (config s) (heap s p)\<rparr>),
       trace := trace s @
         EvPluginRestore p (ExecRoot (config s))
         # (if IsEnabled (heap s p) then [EvReattach p] else [])
         @ [EvMkdirAll (mount_target (config s) (heap s p)) 493,
            EvLog Error ''failed to create PropagatedMount directory at %s: %v''
              [LStr (mount_target (config s) (heap s p)), LErr err]]\<rparr>"
proof -
  let ?s2 = "s\<lparr>trace := trace s @ EvPluginRestore p (ExecRoot (config s))
                    # (if IsEnabled (heap s p) then [EvReattach p] else []),
                 heap := (heap s)(p := (heap s p)
                    \<lparr>Rootfs := rewritten_rootfs (config s) (heap s p)\<rparr>)\<rparr>"
  have tg: "filepath_Join [Rootfs (heap ?s2 p),
               ConfigPropagatedMount (Config (PluginObj (heap ?s2 p)))]
            = mount_target (config s) (heap s p)"
    by (simp add: mount_target_def)
  have pr: "propagate env p (Types (Interface (Config (PluginObj (heap s p))))) ?s2 =
      (False, ?s2\<lparr>heap := (heap ?s2)(p := (heap ?s2 p)
                      \<lparr>PropagatedMount := mount_target (config s) (heap s p)\<rparr>),
                  trace := trace ?s2 @
                    [EvMkdirAll (mount_target (config s) (heap s p)) 493,
                     EvLog Error ''failed to create PropagatedMount directory at %s: %v''
                       [LStr (mount_target (config s) (heap s p)), LErr err]]\<rparr>)"
    unfolding propagate_closed [of _ ?s2 p, OF refl refl] tg
    using assms(2,3) by (simp add: wants_propagation_filter)
  show ?thesis
    unfolding task_body_reattached [OF assms(1)] pr prod.case bool.case
    by (rule state.equality) simp_all
qed

lemma Enabled_self_update:
  "Enabled (PluginObj pl) \<Longrightarrow> pl\<lparr>PluginObj := (PluginObj pl)\<lparr>Enabled := True\<rparr>\<rparr> = pl"
  by (cases pl, cases "PluginObj pl") simp

text \<open>The end of the body. Enable is only called on a record that is enabled already,
  so marking it enabled changes nothing.\<close>

lemma publish_and_reenable_closed:
  "publish_and_reenable env p s =
     s\<lparr>store := (store s)(ID (PluginObj (heap s p)) \<mapsto> p),
       trace := trace s @ EvUpdate p
         # (if \<not> LiveRestoreEnabled (config s) \<and> IsEnabled (heap s p) then
              EvEnable p True
              # (case engine_start env (heap s p) of
                   Some err \<Rightarrow> [EvLog Error ''failed to enable plugin '%s': %s''
                                  [LStr (GetName (heap s p)), LErr err]]
                 | None \<Rightarrow> [])
            else [])\<rparr>"
  by (rule state.equality)
     (simp_all add: publish_and_reenable_def Store_Update_def enable_def logf_def Let_def
        IsEnabled_def Enabled_self_update split: option.split)

lemma task_body_published:
  assumes "reattach_result env (heap s p) = None"
    and "wants_propagation (heap s p) \<longrightarrow>
           os_MkdirAll env (mount_target (config s) (heap s p)) 493 = None"
  shows "task_body env p s =
     s\<lparr>heap := (heap s)(p := (heap s p)
            \<lparr>Rootfs := rewritten_rootfs (config s) (heap s p),
             PropagatedMount := (if wants_propagation (heap s p)
                                 then mount_target (config s) (heap s p)
                                 else PropagatedMount (heap s p))\<rparr>),
       store := (store s)(ID (PluginObj (heap s p)) \<mapsto> p),
       trace := trace s @
         EvPluginRestore p (ExecRoot (config s))
         # (if IsEnabled (heap s p) then [EvReattach p] else [])
         @ (if wants_propagation (heap s p) then
              replicate (length (filter needs_propagation
                           (Types (Interface (Config (PluginObj (heap s p)))))))
                (EvMkdirAll (mount_target (config s) (heap s p)) 493)
            else [])
         @ EvUpdate p
         # (if \<not> LiveRestoreEnabled (config s) \<and> IsEnabled (heap s p) then
              EvEnable p True
              # (case engine_start env
                        ((heap s p)
                           \<lparr>Rootfs := rewritten_rootfs (config s) (heap s p),
                            PropagatedMount := (if wants_propagation (heap s p)
                                 then mount_target (config s) (heap s p)
                                 else PropagatedMount (heap s p))\<rparr>) of
                   Some err \<Rightarrow> [EvLog Error ''failed to enable plugin '%s': %s''
                                  [LStr (GetName (heap s p)), LErr err]]
                 | None \<Rightarrow> [])
            else [])\<rparr>"
proof -
  let ?s2 = "s\<lparr>trace := trace s @ EvPluginRestore p (ExecRoot (config s))
                    # (if IsEnabled (heap s p) then [EvReattach p] else []),
                 heap := (heap s)(p := (heap s p)
                    \<lparr>Rootfs := rewritten_rootfs (config s) (heap s p)\<rparr>)\<rparr>"
  have tg: "filepath_Join [Rootfs (heap ?s2 p),
               ConfigPropagatedMount (Config (PluginObj (heap ?s2 p)))]
            = mount_target (config s) (heap s p)"
    by (simp add: mount_target_def)
  show ?thesis
  proof (cases "wants_propagation (heap s p)")
    case True
    have pr: "propagate env p (Types (Interface (Config (PluginObj (heap s p))))) ?s2 =
      (True, ?s2\<lparr>heap := (heap ?s2)(p := (heap ?s2 p)
                      \<lparr>PropagatedMount := mount_target (config s) (heap s p)\<rparr>),
                  trace := trace ?s2 @
                    replicate (length (filter needs_propagation
                           (Types (Interface (Config (PluginObj (heap s p)))))))
                      (EvMkdirAll (mount_target (config s) (heap s p)) 493)\<rparr>)"
      unfolding propagate_closed [of _ ?s2 p, OF refl refl] tg
      using True assms(2) by (simp add: wants_propagation_filter)
    show ?thesis
      unfolding task_body_reattached [OF assms(1)] pr prod.case bool.case
        publish_and_reenable_closed
      using True by (intro state.equality) (simp_all add: IsEnabled_def GetName_def split: option.split)
  next
    case False
    have pr: "propagate env p (Types (Interface (Config (PluginObj (heap s p))))) ?s2 =
      (True, ?s2)"
      unfolding propagate_closed [of _ ?s2 p, OF refl refl] tg
      using False by (simp add: wants_propagation_filter)
    have same: "(heap s p)\<lparr>Rootfs := rewritten_rootfs (config s) (heap s p),
                   PropagatedMount := PropagatedMount (heap s p)\<rparr>
        = (heap s p)\<lparr>Rootfs := rewritten_rootfs (config s) (heap s p)\<rparr>"
      by (cases "heap s p") simp
    show ?thesis
      unfolding task_body_reattached [OF assms(1)] pr prod.case bool.case
        publish_and_reenable_closed
      using False by (intro state.equality) (simp_all add: IsEnabled_def GetName_def same split: option.split)
  qed
qed

lemma wg_Done_sel [simp]:
  "trace (wg_Done s) = trace s @ [EvWgDone]" "cMap (wg_Done s) = cMap s"
  "heap (wg_Done s) = heap s" "store (wg_Done s) = store s" "config (wg_Done s) = config s"
  "wg (wg_Done s) = wg s - 1" "next_ref (wg_Done s) = next_ref s"
  by (simp_all add: wg_Done_def)

lemma fst_restorePlugin: "fst (restorePlugin env p s) = reattach_result env (heap s p)"
  by (simp add: restorePlugin_closed)

text \<open>The three ways through a task, with what each leaves behind.\<close>

lemma recover_task_reattach_failed:
  assumes "reattach_result env (heap s p) = Some err"
  shows "heap (recover_task env p s) = heap s"
    and "store (recover_task env p s) = store s"
    and "events_since s (recover_task env p s) =
           [EvPluginRestore p (ExecRoot (config s)), EvReattach p,
            EvLog Error ''failed to restore plugin '%s': %s''
              [LStr (GetName (heap s p)), LErr err],
            EvWgDone]"
  by (simp_all add: recover_task_def task_body_reattach_failed [OF assms] events_since_def)

lemma recover_task_mkdir_failed:
  assumes "reattach_result env (heap s p) = None"
    and "wants_propagation (heap s p)"
    and "os_MkdirAll env (mount_target (config s) (heap s p)) 493 = Some err"
  shows "heap (recover_task env p s) = (heap s)(p := (heap s p)
            \<lparr>Rootfs := rewritten_rootfs (config s) (heap s p),
             PropagatedMount := mount_target (config s) (heap s p)\<rparr>)"
    and "store (recover_task env p s) = store s"
    and "events_since s (recover_task env p s) =
         EvPluginRestore p (ExecRoot (config s))
         # (if IsEnabled (heap s p) then [EvReattach p] else [])
         @ [EvMkdirAll (mount_target (config s) (heap s p)) 493,
            EvLog Error ''failed to create PropagatedMount directory at %s: %v''
              [LStr (mount_target (config s) (heap s p)), LErr err],
            EvWgDone]"
  by (simp_all add: recover_task_def task_body_mkdir_failed [OF assms] events_since_def)

lemma recover_task_published:
  assumes "reattach_result env (heap s p) = None"
    and "wants_propagation (heap s p) \<longrightarrow>
           os_MkdirAll env (mount_target (config s) (heap s p)) 493 = None"
  shows "heap (recover_task env p s) = (heap s)(p := (heap s p)
            \<lparr>Rootfs := rewritten_rootfs (config s) (heap s p),
             PropagatedMount := (if wants_propagation (heap s p)
                                 then mount_target (config s) (heap s p)
                                 else PropagatedMount (heap s p))\<rparr>)"
    and "store (recover_task env p s) = (store s)(ID (PluginObj (heap s p)) \<mapsto> p)"
    and "events_since s (recover_task env p s) =
         EvPluginRestore p (ExecRoot (config s))
         # (if IsEnabled (heap s p) then [EvReattach p] else [])
         @ (if wants_propagation (heap s p) then
              replicate (length (filter needs_propagation
                           (Types (Interface (Config (PluginObj (heap s p)))))))
                (EvMkdirAll (mount_target (config s) (heap s p)) 493)
            else [])
         @ EvUpdate p
         # (if \<not> LiveRestoreEnabled (config s) \<and> IsEnabled (heap s p) then
              EvEnable p True
              # (case engine_start env (heap (recover_task env p s) p) of
                   Some err \<Rightarrow> [EvLog Error ''failed to enable plugin '%s': %s''
                                  [LStr (GetName (heap s p)), LErr err]]
                 | None \<Rightarrow> [])
            else [])
         @ [EvWgDone]"
  by (simp_all add: recover_task_def task_body_published [OF assms] events_since_def)

lemma recover_task_frame:
  "config (recover_task env p s) = config s" "cMap (recover_task env p s) = cMap s"
  "wg (recover_task env p s) = wg s - 1" "next_ref (recover_task env p s) = next_ref s"
  "q \<noteq> p \<Longrightarrow> heap (recover_task env p s) q = heap s q"
  "PluginObj (heap (recover_task env p s) q) = PluginObj (heap s q)"
proof -
  consider (a) err where "reattach_result env (heap s p) = Some err"
    | (b) err where "reattach_result env (heap s p) = None" "wants_propagation (heap s p)"
        "os_MkdirAll env (mount_target (config s) (heap s p)) 493 = Some err"
    | (c) "reattach_result env (heap s p) = None"
        "wants_propagation (heap s p) \<longrightarrow>
           os_MkdirAll env (mount_target (config s) (heap s p)) 493 = None"
    by (cases "reattach_result env (heap s p)";
        cases "os_MkdirAll env (mount_target (config s) (heap s p)) 493") auto
  then have "config (recover_task env p s) = config s \<and> cMap (recover_task env p s) = cMap s
    \<and> wg (recover_task env p s) = wg s - 1 \<and> next_ref (recover_task env p s) = next_ref s
    \<and> (q \<noteq> p \<longrightarrow> heap (recover_task env p s) q = heap s q)
    \<and> PluginObj (heap (recover_task env p s) q) = PluginObj (heap s q)"
  proof cases
    case a
    then show ?thesis
      by (simp add: recover_task_def task_body_reattach_failed)
  next
    case b
    then show ?thesis
      by (simp add: recover_task_def task_body_mkdir_failed)
  next
    case c
    then show ?thesis
      by (simp add: recover_task_def task_body_published)
  qed
  then show "config (recover_task env p s) = config s" "cMap (recover_task env p s) = cMap s"
  "wg (recover_task env p s) = wg s - 1" "next_ref (recover_task env p s) = next_ref s"
  "q \<noteq> p \<Longrightarrow> heap (recover_task env p s) q = heap s q"
  "PluginObj (heap (recover_task env p s) q) = PluginObj (heap s q)"
    by simp_all
qed

lemma task_cases:
  obtains (reattach_failed) err where "reattach_result env (heap s p) = Some err"
  | (mkdir_failed) err where "reattach_result env (heap s p) = None"
      "wants_propagation (heap s p)"
      "os_MkdirAll env (mount_target (config s) (heap s p)) 493 = Some err"
  | (published) "reattach_result env (heap s p) = None"
      "wants_propagation (heap s p) \<longrightarrow>
         os_MkdirAll env (mount_target (config s) (heap s p)) 493 = None"
  by (cases "reattach_result env (heap s p)";
      cases "os_MkdirAll env (mount_target (config s) (heap s p)) 493") auto

lemma wants_propagation_iff:
  "wants_propagation pl =
     ((\<exists>typ \<in> set (Types (Interface (Config (PluginObj pl)))).
         (Capability typ = ''volumedriver'' \<or> Capability typ = ''graphdriver'')
         \<and> Prefix typ = ''docker'' \<and> HasPrefix (Version typ) ''1.'')
      \<and> ConfigPropagatedMount (Config (PluginObj pl)) \<noteq> [])"
  by (simp add: wants_propagation_def list_ex_iff needs_propagation_def)

lemma mount_target_final:
  assumes "reattach_result env (heap s p) = None"
  shows "filepath_Join [Rootfs (heap (recover_task env p s) p),
                        ConfigPropagatedMount (Config (PluginObj (heap s p)))]
         = mount_target (config s) (heap s p)"
  using assms
  by (cases rule: task_cases [of env s p])
     (simp_all add: recover_task_mkdir_failed recover_task_published mount_target_def)

lemmas ex_task_defs =
  ex_loaded_def ex_loaded_volume_def ex_loaded_authz_def ex_loaded_stale_def ex_world_def ex_cfg_def
  reattach_result_def IsEnabled_def GetName_def wants_propagation_def needs_propagation_def
  HasPrefix_def mount_target_def rewritten_rootfs_def filepath_Join_def filepath_Clean_def
  restorePlugin_def Plugin_Restore_def pm_restore_def

text \<open>
  C3, as stated, fails on a record that has no matching capability but was loaded with
  a \<^verbatim>\<open>PropagatedMount\<close>: the task never clears the field, and publishes the record
  with it still set.
\<close>

theorem stale_propagated_mount_counterexample:
  "\<not> (\<exists>typ \<in> set (Types (Interface (Config (PluginObj (heap (ex_loaded ex_loaded_stale) 0))))).
       (Capability typ = ''volumedriver'' \<or> Capability typ = ''graphdriver'')
       \<and> Prefix typ = ''docker'' \<and> HasPrefix (Version typ) ''1.'')
   \<and> PropagatedMount (heap (ex_loaded ex_loaded_stale) 0) = ''/plugins/p3/rootfs/data''
   \<and> EvUpdate 0 \<in> set (events_since (ex_loaded ex_loaded_stale)
                 (recover_task (ex_world [] [] [] [] [] []) 0 (ex_loaded ex_loaded_stale)))
   \<and> PropagatedMount (heap (recover_task (ex_world [] [] [] [] [] []) 0
                              (ex_loaded ex_loaded_stale)) 0) = ''/plugins/p3/rootfs/data''"
proof -
  have a: "reattach_result (ex_world [] [] [] [] [] []) (heap (ex_loaded ex_loaded_stale) 0) = None"
    by (simp add: ex_task_defs)
  have b: "wants_propagation (heap (ex_loaded ex_loaded_stale) 0) \<longrightarrow>
       os_MkdirAll (ex_world [] [] [] [] [] [])
         (mount_target (config (ex_loaded ex_loaded_stale)) (heap (ex_loaded ex_loaded_stale) 0))
         493 = None"
    by (simp add: ex_task_defs)
  show ?thesis
    unfolding recover_task_published [OF a b]
    by (simp add: ex_task_defs)
qed

text \<open>
  C3, amended. In a recovery task, \<^verbatim>\<open>PropagatedMount\<close> is assigned, and a directory is
  created, only when some declared capability has type \<^verbatim>\<open>volumedriver\<close> or
  \<^verbatim>\<open>graphdriver\<close>, prefix \<^verbatim>\<open>docker\<close> and a version that starts with
  \<^verbatim>\<open>1.\<close>, and the record's mount-propagation path is not empty. A record with no
  such capability keeps the \<^verbatim>\<open>PropagatedMount\<close> it was loaded with (empty when it was
  loaded empty), and its task creates no directory. When the conditions hold and the
  task got past the reattach step, \<^verbatim>\<open>PropagatedMount\<close> is the join of \<^verbatim>\<open>Rootfs\<close>
  and that path, and \<^verbatim>\<open>MkdirAll\<close> is called on it with mode 0755.
\<close>

theorem propagated_mount_gate:
  "(PropagatedMount (heap (recover_task env p s) p) \<noteq> PropagatedMount (heap s p)
      \<or> (\<exists>path perm. EvMkdirAll path perm \<in> set (events_since s (recover_task env p s)))
    \<longrightarrow> (\<exists>typ \<in> set (Types (Interface (Config (PluginObj (heap s p))))).
           (Capability typ = ''volumedriver'' \<or> Capability typ = ''graphdriver'')
           \<and> Prefix typ = ''docker'' \<and> HasPrefix (Version typ) ''1.'')
        \<and> ConfigPropagatedMount (Config (PluginObj (heap s p))) \<noteq> [])
   \<and> (\<not> (\<exists>typ \<in> set (Types (Interface (Config (PluginObj (heap s p))))).
           (Capability typ = ''volumedriver'' \<or> Capability typ = ''graphdriver'')
           \<and> Prefix typ = ''docker'' \<and> HasPrefix (Version typ) ''1.'')
    \<longrightarrow> PropagatedMount (heap (recover_task env p s) p) = PropagatedMount (heap s p)
        \<and> (PropagatedMount (heap s p) = [] \<longrightarrow>
             PropagatedMount (heap (recover_task env p s) p) = [])
        \<and> (\<forall>path perm. EvMkdirAll path perm \<notin> set (events_since s (recover_task env p s))))
   \<and> ((\<exists>typ \<in> set (Types (Interface (Config (PluginObj (heap s p))))).
           (Capability typ = ''volumedriver'' \<or> Capability typ = ''graphdriver'')
           \<and> Prefix typ = ''docker'' \<and> HasPrefix (Version typ) ''1.'')
       \<and> ConfigPropagatedMount (Config (PluginObj (heap s p))) \<noteq> []
       \<and> fst (restorePlugin env p s) = None
    \<longrightarrow> PropagatedMount (heap (recover_task env p s) p) =
          filepath_Join [Rootfs (heap (recover_task env p s) p),
                         ConfigPropagatedMount (Config (PluginObj (heap s p)))]
        \<and> EvMkdirAll (filepath_Join [Rootfs (heap (recover_task env p s) p),
                         ConfigPropagatedMount (Config (PluginObj (heap s p)))]) 493
            \<in> set (events_since s (recover_task env p s)))"
proof -
  let ?s' = "recover_task env p s"
  let ?W = "wants_propagation (heap s p)"
  have only: "PropagatedMount (heap ?s' p) \<noteq> PropagatedMount (heap s p)
      \<or> (\<exists>path perm. EvMkdirAll path perm \<in> set (events_since s ?s')) \<longrightarrow> ?W"
    by (cases rule: task_cases [of env s p])
       (auto simp add: recover_task_reattach_failed recover_task_mkdir_failed
          recover_task_published split: if_splits)
  have pos: "?W \<and> reattach_result env (heap s p) = None \<longrightarrow>
      PropagatedMount (heap ?s' p) = mount_target (config s) (heap s p)
      \<and> EvMkdirAll (mount_target (config s) (heap s p)) 493 \<in> set (events_since s ?s')"
    by (cases rule: task_cases [of env s p])
       (auto simp add: recover_task_mkdir_failed recover_task_published
          wants_propagation_filter)
  show ?thesis
    using only pos mount_target_final [of env s p]
    unfolding wants_propagation_iff fst_restorePlugin
    by (intro conjI impI) (blast | simp)+
qed

theorem propagated_mount_gate_witness:
  "(\<exists>typ \<in> set (Types (Interface (Config (PluginObj (heap (ex_loaded ex_loaded_volume) 0))))).
       (Capability typ = ''volumedriver'' \<or> Capability typ = ''graphdriver'')
       \<and> Prefix typ = ''docker'' \<and> HasPrefix (Version typ) ''1.'')
   \<and> ConfigPropagatedMount (Config (PluginObj (heap (ex_loaded ex_loaded_volume) 0))) = ''/data''
   \<and> fst (restorePlugin (ex_world [] [] [] [] [] []) 0 (ex_loaded ex_loaded_volume)) = None
   \<and> PropagatedMount (heap (recover_task (ex_world [] [] [] [] [] []) 0
                              (ex_loaded ex_loaded_volume)) 0) = ''/plugins/p1/rootfs/data''
   \<and> EvMkdirAll ''/plugins/p1/rootfs/data'' 493
        \<in> set (events_since (ex_loaded ex_loaded_volume)
                 (recover_task (ex_world [] [] [] [] [] []) 0 (ex_loaded ex_loaded_volume)))
   \<and> \<not> (\<exists>typ \<in> set (Types (Interface (Config (PluginObj (heap (ex_loaded ex_loaded_authz) 0))))).
       (Capability typ = ''volumedriver'' \<or> Capability typ = ''graphdriver'')
       \<and> Prefix typ = ''docker'' \<and> HasPrefix (Version typ) ''1.'')
   \<and> PropagatedMount (heap (recover_task (ex_world [] [] [] [] [] []) 0
                              (ex_loaded ex_loaded_authz)) 0) = []
   \<and> (\<forall>path perm. EvMkdirAll path perm
        \<notin> set (events_since (ex_loaded ex_loaded_authz)
                 (recover_task (ex_world [] [] [] [] [] []) 0 (ex_loaded ex_loaded_authz))))"
proof -
  have r: "Rootfs (heap (recover_task (ex_world [] [] [] [] [] []) 0
                              (ex_loaded ex_loaded_volume)) 0) = ''/plugins/p1/rootfs''"
    by (subst recover_task_published(1)) (simp_all add: ex_task_defs)
  show ?thesis
    using propagated_mount_gate [of "ex_world [] [] [] [] [] []" 0 "ex_loaded ex_loaded_volume"]
      propagated_mount_gate [of "ex_world [] [] [] [] [] []" 0 "ex_loaded ex_loaded_authz"]
    unfolding r
    by (simp add: ex_task_defs)
qed

text \<open>
  C7, as stated, fails on a record that was loaded with an empty \<^verbatim>\<open>Rootfs\<close>: the
  task publishes it with \<^verbatim>\<open>Rootfs\<close> still empty.
\<close>

theorem rootfs_empty_counterexample:
  "Rootfs (heap (ex_loaded ex_loaded_authz) 0) = []
   \<and> EvUpdate 0 \<in> set (events_since (ex_loaded ex_loaded_authz)
                 (recover_task (ex_world [] [] [] [] [] []) 0 (ex_loaded ex_loaded_authz)))
   \<and> Rootfs (heap (recover_task (ex_world [] [] [] [] [] []) 0 (ex_loaded ex_loaded_authz)) 0)
       = []
   \<and> filepath_Join [Root (config (ex_loaded ex_loaded_authz)),
                     ID (PluginObj (heap (ex_loaded ex_loaded_authz) 0)), ''rootfs'']
       = ''/plugins/p2/rootfs''"
proof -
  have a: "reattach_result (ex_world [] [] [] [] [] []) (heap (ex_loaded ex_loaded_authz) 0) = None"
    by (simp add: ex_task_defs)
  have b: "wants_propagation (heap (ex_loaded ex_loaded_authz) 0) \<longrightarrow>
       os_MkdirAll (ex_world [] [] [] [] [] [])
         (mount_target (config (ex_loaded ex_loaded_authz)) (heap (ex_loaded ex_loaded_authz) 0))
         493 = None"
    by (simp add: ex_task_defs)
  show ?thesis
    unfolding recover_task_published [OF a b]
    by (simp add: ex_task_defs)
qed

text \<open>
  C7, amended. A task that gets past the reattach step sets \<^verbatim>\<open>Rootfs\<close> to the join
  of the root directory, the record's identity and \<^verbatim>\<open>rootfs\<close> when the loaded
  \<^verbatim>\<open>Rootfs\<close> is not empty, and leaves an empty \<^verbatim>\<open>Rootfs\<close> empty; every record that
  a task publishes has this \<^verbatim>\<open>Rootfs\<close>. A task whose reattach step fails does not change
  \<^verbatim>\<open>Rootfs\<close> and does not publish.
\<close>

theorem rootfs_rewrite_guarded:
  "(EvUpdate p \<in> set (events_since s (recover_task env p s))
      \<longrightarrow> Rootfs (heap (recover_task env p s) p) =
            (if Rootfs (heap s p) \<noteq> []
             then filepath_Join [Root (config s), ID (PluginObj (heap s p)), ''rootfs'']
             else []))
   \<and> (fst (restorePlugin env p s) = None
      \<longrightarrow> Rootfs (heap (recover_task env p s) p) =
            (if Rootfs (heap s p) \<noteq> []
             then filepath_Join [Root (config s), ID (PluginObj (heap s p)), ''rootfs'']
             else []))
   \<and> (fst (restorePlugin env p s) \<noteq> None
      \<longrightarrow> Rootfs (heap (recover_task env p s) p) = Rootfs (heap s p)
          \<and> EvUpdate p \<notin> set (events_since s (recover_task env p s)))"
  unfolding fst_restorePlugin
  by (cases rule: task_cases [of env s p])
     (auto simp add: recover_task_reattach_failed recover_task_mkdir_failed
        recover_task_published rewritten_rootfs_def)

theorem rootfs_rewrite_guarded_witness:
  "fst (restorePlugin (ex_world [] [] [] [] [] []) 0 (ex_loaded ex_loaded_volume)) = None
   \<and> EvUpdate 0 \<in> set (events_since (ex_loaded ex_loaded_volume)
                 (recover_task (ex_world [] [] [] [] [] []) 0 (ex_loaded ex_loaded_volume)))
   \<and> Rootfs (heap (ex_loaded ex_loaded_volume) 0) = ''/old/rootfs''
   \<and> Rootfs (heap (recover_task (ex_world [] [] [] [] [] []) 0 (ex_loaded ex_loaded_volume)) 0)
       = ''/plugins/p1/rootfs''
   \<and> fst (restorePlugin (ex_world [] [] [] [] [''p1''] []) 0 (ex_loaded ex_loaded_volume))
       = Some (Errno ''no such process'')
   \<and> Rootfs (heap (recover_task (ex_world [] [] [] [] [''p1''] []) 0
                      (ex_loaded ex_loaded_volume)) 0) = ''/old/rootfs''
   \<and> EvUpdate 0 \<notin> set (events_since (ex_loaded ex_loaded_volume)
                 (recover_task (ex_world [] [] [] [] [''p1''] []) 0 (ex_loaded ex_loaded_volume)))"
proof -
  have a: "reattach_result (ex_world [] [] [] [] [] []) (heap (ex_loaded ex_loaded_volume) 0)
             = None"
    by (simp add: ex_task_defs)
  have b: "wants_propagation (heap (ex_loaded ex_loaded_volume) 0) \<longrightarrow>
       os_MkdirAll (ex_world [] [] [] [] [] [])
         (mount_target (config (ex_loaded ex_loaded_volume)) (heap (ex_loaded ex_loaded_volume) 0))
         493 = None"
    by (simp add: ex_task_defs)
  have u: "EvUpdate 0 \<in> set (events_since (ex_loaded ex_loaded_volume)
                 (recover_task (ex_world [] [] [] [] [] []) 0 (ex_loaded ex_loaded_volume)))"
    unfolding recover_task_published(3) [OF a b] by simp
  show ?thesis
    using rootfs_rewrite_guarded [of 0 "ex_loaded ex_loaded_volume" "ex_world [] [] [] [] [] []"]
      rootfs_rewrite_guarded [of 0 "ex_loaded ex_loaded_volume" "ex_world [] [] [] [] [''p1''] []"]
      u
    by (simp add: ex_task_defs)
qed

text \<open>
  C10, as stated, fails when the directory for \<^verbatim>\<open>PropagatedMount\<close> cannot be
  created: the task returns without publishing and without enabling, but it has already
  written \<^verbatim>\<open>Rootfs\<close> and \<^verbatim>\<open>PropagatedMount\<close> into the record, and the Store
  holds that very record.
\<close>

theorem mkdir_failure_counterexample:
  "store (ex_loaded ex_loaded_volume) ''p1'' = Some 0
   \<and> Rootfs (heap (ex_loaded ex_loaded_volume) 0) = ''/old/rootfs''
   \<and> PropagatedMount (heap (ex_loaded ex_loaded_volume) 0) = []
   \<and> events_since (ex_loaded ex_loaded_volume)
        (recover_task (ex_world [] [] [] [''/plugins/p1/rootfs/data''] [] []) 0
           (ex_loaded ex_loaded_volume))
       = [EvPluginRestore 0 ''/run/plugins'', EvReattach 0,
          EvMkdirAll ''/plugins/p1/rootfs/data'' 493,
          EvLog Error ''failed to create PropagatedMount directory at %s: %v''
            [LStr ''/plugins/p1/rootfs/data'', LErr (Errno ''EACCES'')],
          EvWgDone]
   \<and> store (recover_task (ex_world [] [] [] [''/plugins/p1/rootfs/data''] [] []) 0
              (ex_loaded ex_loaded_volume)) ''p1'' = Some 0
   \<and> Rootfs (heap (recover_task (ex_world [] [] [] [''/plugins/p1/rootfs/data''] [] []) 0
                      (ex_loaded ex_loaded_volume)) 0) = ''/plugins/p1/rootfs''
   \<and> PropagatedMount (heap (recover_task (ex_world [] [] [] [''/plugins/p1/rootfs/data''] [] []) 0
                      (ex_loaded ex_loaded_volume)) 0) = ''/plugins/p1/rootfs/data''"
proof -
  have a: "reattach_result (ex_world [] [] [] [''/plugins/p1/rootfs/data''] [] [])
             (heap (ex_loaded ex_loaded_volume) 0) = None"
    by (simp add: ex_task_defs)
  have b: "wants_propagation (heap (ex_loaded ex_loaded_volume) 0)"
    by (simp add: ex_task_defs)
  have c: "os_MkdirAll (ex_world [] [] [] [''/plugins/p1/rootfs/data''] [] [])
         (mount_target (config (ex_loaded ex_loaded_volume)) (heap (ex_loaded ex_loaded_volume) 0))
         493 = Some (Errno ''EACCES'')"
    by (simp add: ex_task_defs)
  show ?thesis
    unfolding recover_task_mkdir_failed [OF a b c]
    by (simp add: ex_task_defs)
qed

text \<open>
  C10, amended. A task that does not publish performs neither the Store update nor the
  enable call, and leaves the Store's index and every other record as they were. When
  it is the reattach step that failed, the record itself is as Phase 1 installed it.
  When the task got past the reattach step (so the directory for
  \<^verbatim>\<open>PropagatedMount\<close> could not be created), the record, which the Store shares, has
  its \<^verbatim>\<open>Rootfs\<close> rewritten if it was not empty and its \<^verbatim>\<open>PropagatedMount\<close> set to
  the join of \<^verbatim>\<open>Rootfs\<close> and the mount-propagation path.
\<close>

theorem unpublished_task_effects:
  "(EvUpdate p \<notin> set (events_since s (recover_task env p s))
      \<longrightarrow> store (recover_task env p s) = store s
          \<and> (\<forall>force. EvEnable p force \<notin> set (events_since s (recover_task env p s)))
          \<and> (\<forall>q. q \<noteq> p \<longrightarrow> heap (recover_task env p s) q = heap s q))
   \<and> (fst (restorePlugin env p s) \<noteq> None
      \<longrightarrow> EvUpdate p \<notin> set (events_since s (recover_task env p s))
          \<and> heap (recover_task env p s) = heap s)
   \<and> (fst (restorePlugin env p s) = None
       \<and> EvUpdate p \<notin> set (events_since s (recover_task env p s))
      \<longrightarrow> heap (recover_task env p s) p =
            (heap s p)
              \<lparr>Rootfs := (if Rootfs (heap s p) \<noteq> []
                          then filepath_Join
                                 [Root (config s), ID (PluginObj (heap s p)), ''rootfs'']
                          else []),
               PropagatedMount := filepath_Join
                  [if Rootfs (heap s p) \<noteq> []
                   then filepath_Join [Root (config s), ID (PluginObj (heap s p)), ''rootfs'']
                   else [],
                   ConfigPropagatedMount (Config (PluginObj (heap s p)))]\<rparr>)"
  unfolding fst_restorePlugin
  by (cases rule: task_cases [of env s p])
     (auto simp add: recover_task_reattach_failed recover_task_mkdir_failed
        recover_task_published rewritten_rootfs_def mount_target_def)

theorem unpublished_task_effects_witness:
  "fst (restorePlugin (ex_world [] [] [] [] [''p1''] []) 0 (ex_loaded ex_loaded_volume))
       = Some (Errno ''no such process'')
   \<and> EvUpdate 0 \<notin> set (events_since (ex_loaded ex_loaded_volume)
                 (recover_task (ex_world [] [] [] [] [''p1''] []) 0 (ex_loaded ex_loaded_volume)))
   \<and> heap (recover_task (ex_world [] [] [] [] [''p1''] []) 0 (ex_loaded ex_loaded_volume))
       = heap (ex_loaded ex_loaded_volume)
   \<and> store (recover_task (ex_world [] [] [] [] [''p1''] []) 0 (ex_loaded ex_loaded_volume))
       = store (ex_loaded ex_loaded_volume)
   \<and> (\<forall>force. EvEnable 0 force \<notin> set (events_since (ex_loaded ex_loaded_volume)
                 (recover_task (ex_world [] [] [] [] [''p1''] []) 0 (ex_loaded ex_loaded_volume))))
   \<and> fst (restorePlugin (ex_world [] [] [] [''/plugins/p1/rootfs/data''] [] []) 0
            (ex_loaded ex_loaded_volume)) = None
   \<and> EvUpdate 0 \<notin> set (events_since (ex_loaded ex_loaded_volume)
                 (recover_task (ex_world [] [] [] [''/plugins/p1/rootfs/data''] [] []) 0
                    (ex_loaded ex_loaded_volume)))
   \<and> heap (recover_task (ex_world [] [] [] [''/plugins/p1/rootfs/data''] [] []) 0
              (ex_loaded ex_loaded_volume)) 0
       = ex_loaded_volume\<lparr>Rootfs := ''/plugins/p1/rootfs'',
                           PropagatedMount := ''/plugins/p1/rootfs/data''\<rparr>"
proof -
  have a: "reattach_result (ex_world [] [] [] [''/plugins/p1/rootfs/data''] [] [])
             (heap (ex_loaded ex_loaded_volume) 0) = None"
    by (simp add: ex_task_defs)
  have b: "wants_propagation (heap (ex_loaded ex_loaded_volume) 0)"
    by (simp add: ex_task_defs)
  have c: "os_MkdirAll (ex_world [] [] [] [''/plugins/p1/rootfs/data''] [] [])
         (mount_target (config (ex_loaded ex_loaded_volume)) (heap (ex_loaded ex_loaded_volume) 0))
         493 = Some (Errno ''EACCES'')"
    by (simp add: ex_task_defs)
  have u: "EvUpdate 0 \<notin> set (events_since (ex_loaded ex_loaded_volume)
                 (recover_task (ex_world [] [] [] [''/plugins/p1/rootfs/data''] [] []) 0
                    (ex_loaded ex_loaded_volume)))"
    unfolding recover_task_mkdir_failed(3) [OF a b c] by simp
  show ?thesis
    using unpublished_task_effects
          [of 0 "ex_loaded ex_loaded_volume" "ex_world [] [] [] [] [''p1''] []"]
      unpublished_task_effects
          [of 0 "ex_loaded ex_loaded_volume"
              "ex_world [] [] [] [''/plugins/p1/rootfs/data''] [] []"]
      u
    by (simp add: ex_task_defs)
qed

section \<open>Phase 1\<close>

lemma loadPlugin_fail:
  assumes "decode_entry env (Root (config s)) v = None"
  shows "\<exists>err. loadPlugin env v s =
           (Inl err, emit (EvReadFile (filepath_Join [Root (config s), v, configFileName])) s)"
  using assms
  by (auto simp add: loadPlugin_def decode_entry_def Let_def split: sum.splits)

lemma loadPlugin_ok:
  assumes "decode_entry env (Root (config s)) v = Some pl"
  shows "\<exists>s1. loadPlugin env v s = (Inr (next_ref s), s1)
     \<and> heap s1 = (heap s)(next_ref s := pl) \<and> next_ref s1 = Suc (next_ref s)
     \<and> trace s1 = trace s @ [EvReadFile (filepath_Join [Root (config s), v, configFileName])]
     \<and> store s1 = store s \<and> cMap s1 = cMap s \<and> config s1 = config s \<and> wg s1 = wg s"
  using assms
  by (auto simp add: loadPlugin_def decode_entry_def Let_def split: sum.splits)

text \<open>Whatever Phase 1 does, it only reads files of matching entries and allocates
  records.\<close>

lemma load_entries_frame:
  "store (snd (load_entries env dir acc s)) = store s
   \<and> cMap (snd (load_entries env dir acc s)) = cMap s
   \<and> config (snd (load_entries env dir acc s)) = config s
   \<and> wg (snd (load_entries env dir acc s)) = wg s
   \<and> next_ref s \<le> next_ref (snd (load_entries env dir acc s))
   \<and> (\<forall>r < next_ref s. heap (snd (load_entries env dir acc s)) r = heap s r)
   \<and> (\<exists>vs. trace (snd (load_entries env dir acc s)) =
              trace s @ map (\<lambda>v. EvReadFile (filepath_Join [Root (config s), v, configFileName])) vs
           \<and> set vs \<subseteq> {v \<in> set dir. validFullID v})"
proof (induction dir arbitrary: acc s)
  case Nil
  show ?case by simp
next
  case (Cons v dir)
  show ?case
  proof (cases "validFullID v")
    case False
    then show ?thesis
      using Cons.IH [of acc s] by auto
  next
    case True
    show ?thesis
    proof (cases "decode_entry env (Root (config s)) v")
      case None
      from loadPlugin_fail [OF None] obtain err where
        lp: "loadPlugin env v s =
           (Inl err, emit (EvReadFile (filepath_Join [Root (config s), v, configFileName])) s)"
        by blast
      have "trace (snd (load_entries env (v # dir) acc s)) =
              trace s @ map (\<lambda>v. EvReadFile (filepath_Join [Root (config s), v, configFileName])) [v]"
        using True lp by simp
      moreover have "set [v] \<subseteq> {u \<in> set (v # dir). validFullID u}"
        using True by simp
      ultimately have "\<exists>vs. trace (snd (load_entries env (v # dir) acc s)) =
              trace s @ map (\<lambda>v. EvReadFile (filepath_Join [Root (config s), v, configFileName])) vs
           \<and> set vs \<subseteq> {u \<in> set (v # dir). validFullID u}"
        by blast
      then show ?thesis
        using True lp by simp
    next
      case (Some pl)
      from loadPlugin_ok [OF Some] obtain s1 where
        lp: "loadPlugin env v s = (Inr (next_ref s), s1)"
        and s1: "heap s1 = (heap s)(next_ref s := pl)" "next_ref s1 = Suc (next_ref s)"
          "trace s1 = trace s @ [EvReadFile (filepath_Join [Root (config s), v, configFileName])]"
          "store s1 = store s" "cMap s1 = cMap s" "config s1 = config s" "wg s1 = wg s"
        by blast
      let ?acc = "AList.update (GetID (heap s1 (next_ref s))) (next_ref s) acc"
      have step: "load_entries env (v # dir) acc s = load_entries env dir ?acc s1"
        using True lp by simp
      note IH = Cons.IH [of ?acc s1]
      from IH obtain vs where
        vs: "trace (snd (load_entries env dir ?acc s1)) =
              trace s1 @ map (\<lambda>v. EvReadFile (filepath_Join [Root (config s1), v, configFileName])) vs"
        "set vs \<subseteq> {v \<in> set dir. validFullID v}"
        by blast
      have "trace (snd (load_entries env (v # dir) acc s)) =
              trace s @ map (\<lambda>v. EvReadFile (filepath_Join [Root (config s), v, configFileName])) (v # vs)"
        unfolding step using vs(1) s1 by simp
      moreover have "set (v # vs) \<subseteq> {u \<in> set (v # dir). validFullID u}"
        using True vs(2) by auto
      ultimately have tr: "\<exists>vs. trace (snd (load_entries env (v # dir) acc s)) =
              trace s @ map (\<lambda>v. EvReadFile (filepath_Join [Root (config s), v, configFileName])) vs
           \<and> set vs \<subseteq> {u \<in> set (v # dir). validFullID u}"
        by blast
      have hp: "\<forall>r < next_ref s. heap (snd (load_entries env (v # dir) acc s)) r = heap s r"
        unfolding step using IH s1 by simp
      show ?thesis
        unfolding step [symmetric]
        using tr hp IH s1 unfolding step by simp
    qed
  qed
qed

lemma load_entries_fail:
  assumes "\<exists>v \<in> set dir. validFullID v \<and> decode_entry env (Root (config s)) v = None"
  shows "\<exists>err. fst (load_entries env dir acc s) = Inl err"
  using assms
proof (induction dir arbitrary: acc s)
  case Nil
  then show ?case by simp
next
  case (Cons v dir)
  show ?case
  proof (cases "validFullID v")
    case False
    then show ?thesis
      using Cons.IH [of s acc] Cons.prems by auto
  next
    case True
    show ?thesis
    proof (cases "decode_entry env (Root (config s)) v")
      case None
      from loadPlugin_fail [OF None] show ?thesis
        using True by auto
    next
      case (Some pl)
      from loadPlugin_ok [OF Some] obtain s1 where
        lp: "loadPlugin env v s = (Inr (next_ref s), s1)" and cf: "config s1 = config s"
        by blast
      have "\<exists>v \<in> set dir. validFullID v \<and> decode_entry env (Root (config s1)) v = None"
        using Cons.prems Some cf by auto
      from Cons.IH [OF this] show ?thesis
        using True lp by simp
    qed
  qed
qed

lemma ex_paths:
  "filepath_Join [''/plugins'', id_a, configFileName] = ''/plugins/'' @ id_a @ ''/config.json''"
  "filepath_Join [''/plugins'', id_b, configFileName] = ''/plugins/'' @ id_b @ ''/config.json''"
  by (simp_all add: filepath_Join_def filepath_Clean_def configFileName_def id_a_def id_b_def)

lemma ex_valid: "validFullID id_a" "validFullID id_b" "\<not> validFullID ''tmp''"
  by (simp_all add: validFullID_def id_a_def id_b_def hexdigits_def)

lemma ex_decode:
  "decode_entry (ex_world ex_dirs ex_files ex_decoded nm nr ns) ''/plugins'' id_a = Some plugin_a"
  "decode_entry (ex_world ex_dirs ex_files ex_decoded nm nr ns) ''/plugins'' id_b = Some plugin_b"
  "decode_entry (ex_world ex_dirs ex_files ex_decoded_corrupt nm nr ns) ''/plugins'' id_a
     = Some plugin_a"
  "decode_entry (ex_world ex_dirs ex_files ex_decoded_corrupt nm nr ns) ''/plugins'' id_b = None"
  unfolding decode_entry_def ex_paths
  by (simp_all add: ex_world_def ex_files_def ex_decoded_def ex_decoded_corrupt_def
        id_a_def id_b_def)

section \<open>\<^verbatim>\<open>reload\<close> and \<^verbatim>\<open>NewManager\<close> when Phase 1 fails\<close>

lemma reload_phase1_fail:
  assumes "os_ReadDir env (Root (config s)) = Inr dir"
    and "\<exists>v \<in> set dir. validFullID v \<and> decode_entry env (Root (config s)) v = None"
  shows "\<exists>err s1. reload env s = (Return (Some err), s1)
     \<and> store s1 = store s \<and> cMap s1 = cMap s \<and> config s1 = config s
     \<and> (\<exists>vs. trace s1 = trace s @ EvReadDir (Root (config s))
              # map (\<lambda>v. EvReadFile (filepath_Join [Root (config s), v, configFileName])) vs
            \<and> set vs \<subseteq> {v \<in> set dir. validFullID v})"
proof -
  let ?s0 = "emit (EvReadDir (Root (config s))) s"
  have "\<exists>v \<in> set dir. validFullID v \<and> decode_entry env (Root (config ?s0)) v = None"
    using assms(2) by simp
  from load_entries_fail [OF this, of "[]"] obtain err where
    f: "fst (load_entries env dir [] ?s0) = Inl err"
    by blast
  then have run: "reload env s = (Return (Some err), snd (load_entries env dir [] ?s0))"
    using assms(1) by (auto simp add: reload_def Let_def split: prod.splits)
  show ?thesis
    unfolding run using load_entries_frame [of env dir "[]" ?s0] by auto
qed

lemma MkdirAll_sel:
  "fst (MkdirAll env path perm s) = os_MkdirAll env path perm"
  "snd (MkdirAll env path perm s) = emit (EvMkdirAll path perm) s"
  by (simp_all add: MkdirAll_def)

text \<open>The steps of \<^verbatim>\<open>NewManager\<close> before \<^verbatim>\<open>reload\<close>.\<close>

lemma NewManager_cases:
  obtains (mkdir_root) err where "os_MkdirAll env (Root cfg) 448 = Some err"
      "NewManager env cfg s =
         (Return (Some (Wrap err (''failed to create '' @ Root cfg))),
          emit (EvMkdirAll (Root cfg) 448) (s\<lparr>config := cfg\<rparr>))"
  | (mkdir_exec) err where "os_MkdirAll env (ExecRoot cfg) 448 = Some err"
      "NewManager env cfg s =
         (Return (Some (Wrap err (''failed to create '' @ ExecRoot cfg))),
          emit (EvMkdirAll (ExecRoot cfg) 448)
            (emit (EvMkdirAll (Root cfg) 448) (s\<lparr>config := cfg\<rparr>)))"
  | (client) err where "Executor_Client env = Some err"
      "NewManager env cfg s =
         (Return (Some (Wrap err ''failed to create containerd client'')),
          emit EvExecutorClient (emit (EvMkdirAll (ExecRoot cfg) 448)
            (emit (EvMkdirAll (Root cfg) 448) (s\<lparr>config := cfg\<rparr>))))"
  | (reload) "os_MkdirAll env (Root cfg) 448 = None" "os_MkdirAll env (ExecRoot cfg) 448 = None"
      "Executor_Client env = None"
      "NewManager env cfg s =
         (case reload env ((emit EvExecutorClient (emit (EvMkdirAll (ExecRoot cfg) 448)
            (emit (EvMkdirAll (Root cfg) 448) (s\<lparr>config := cfg\<rparr>))))\<lparr>cMap := Map.empty\<rparr>) of
            (Return (Some err), m4) \<Rightarrow>
              (Return (Some (Wrap err ''failed to restore plugins'')), m4)
          | (out, m4) \<Rightarrow> (out, m4))"
  by (cases "os_MkdirAll env (Root cfg) 448"; cases "os_MkdirAll env (ExecRoot cfg) 448";
      cases "Executor_Client env")
     (simp_all add: NewManager_def MkdirAll_def Let_def)

text \<open>
  C1. When the root directory lists an entry in the full-ID format whose
  \<^verbatim>\<open>config.json\<close> is missing, unreadable or does not decode, \<^verbatim>\<open>NewManager\<close>
  returns an error, and neither \<^verbatim>\<open>SetAll\<close> nor \<^verbatim>\<open>Update\<close> is called on the Plugin
  Store: the Store's index is what it was before.
\<close>

theorem NewManager_phase1_all_or_nothing:
  assumes "os_ReadDir env (Root cfg) = Inr dir"
    and "v \<in> set dir" and "validFullID v"
    and "decode_entry env (Root cfg) v = None"
  shows "(\<exists>err. fst (NewManager env cfg s) = Return (Some err))
     \<and> store (snd (NewManager env cfg s)) = store s
     \<and> (\<forall>plugins. EvSetAll plugins \<notin> set (events_since s (snd (NewManager env cfg s))))
     \<and> (\<forall>p. EvUpdate p \<notin> set (events_since s (snd (NewManager env cfg s))))"
proof (cases rule: NewManager_cases [of env cfg s])
  case (mkdir_root err)
  then show ?thesis by (simp add: events_since_def)
next
  case (mkdir_exec err)
  then show ?thesis by (simp add: events_since_def)
next
  case (client err)
  then show ?thesis by (simp add: events_since_def)
next
  case reload
  let ?m = "(emit EvExecutorClient (emit (EvMkdirAll (ExecRoot cfg) 448)
            (emit (EvMkdirAll (Root cfg) 448) (s\<lparr>config := cfg\<rparr>))))\<lparr>cMap := Map.empty\<rparr>"
  have rd: "os_ReadDir env (Root (config ?m)) = Inr dir"
    using assms(1) by simp
  have bad: "\<exists>v \<in> set dir. validFullID v \<and> decode_entry env (Root (config ?m)) v = None"
    using assms(2-4) by auto
  from reload_phase1_fail [OF rd bad] obtain err s1 vs where
    r: "reload env ?m = (Return (Some err), s1)" and st: "store s1 = store ?m"
    and tr: "trace s1 = trace ?m @ EvReadDir (Root (config ?m))
              # map (\<lambda>v. EvReadFile (filepath_Join [Root (config ?m), v, configFileName])) vs"
    by blast
  have run: "NewManager env cfg s = (Return (Some (Wrap err ''failed to restore plugins'')), s1)"
    unfolding reload(4) r by simp
  show ?thesis
    unfolding run using st tr by (auto simp add: events_since_def)
qed

theorem NewManager_phase1_all_or_nothing_witness:
  "os_ReadDir (ex_world ex_dirs ex_files ex_decoded_corrupt [] [] []) (Root ex_cfg)
     = Inr [id_a, id_b, ''tmp'']
   \<and> id_b \<in> set [id_a, id_b, ''tmp''] \<and> validFullID id_b
   \<and> decode_entry (ex_world ex_dirs ex_files ex_decoded_corrupt [] [] []) (Root ex_cfg) id_b = None
   \<and> (\<exists>err. fst (NewManager (ex_world ex_dirs ex_files ex_decoded_corrupt [] [] []) ex_cfg ex_init)
              = Return (Some err))
   \<and> store (snd (NewManager (ex_world ex_dirs ex_files ex_decoded_corrupt [] [] []) ex_cfg ex_init))
       = Map.empty
   \<and> (\<forall>plugins. EvSetAll plugins \<notin> set (events_since ex_init
          (snd (NewManager (ex_world ex_dirs ex_files ex_decoded_corrupt [] [] []) ex_cfg ex_init))))"
proof -
  have rd: "os_ReadDir (ex_world ex_dirs ex_files ex_decoded_corrupt [] [] []) (Root ex_cfg)
     = Inr [id_a, id_b, ''tmp'']"
    by (simp add: ex_world_def ex_dirs_def ex_cfg_def)
  have root: "Root ex_cfg = ''/plugins''"
    by (simp add: ex_cfg_def)
  have dec: "decode_entry (ex_world ex_dirs ex_files ex_decoded_corrupt [] [] []) (Root ex_cfg) id_b
      = None"
    unfolding root by (rule ex_decode(4))
  have mem: "id_b \<in> set [id_a, id_b, ''tmp'']"
    by simp
  have st: "store ex_init = Map.empty"
    by (simp add: ex_init_def)
  show ?thesis
    using NewManager_phase1_all_or_nothing [OF rd mem ex_valid(2) dec, of ex_init]
      rd dec ex_valid(2)
    unfolding st by simp
qed

section \<open>Phase 1 when every matching entry loads\<close>

lemma set_update_subset: "set (AList.update k v al) \<subseteq> insert (k, v) (set al)"
  by (induction al) auto

lemma distinct_snd_update:
  "distinct (map snd al) \<Longrightarrow> v \<notin> snd ` set al \<Longrightarrow> distinct (map snd (AList.update k v al))"
proof (induction al)
  case Nil
  then show ?case by simp
next
  case (Cons a al)
  have "snd ` set (AList.update k v al) \<subseteq> insert v (snd ` set al)"
    using set_update_subset [of k v al] by force
  with Cons show ?case
    by (cases a) (auto simp add: image_iff)
qed

lemma table_ok_update:
  assumes "table_ok acc s" and "heap s1 = (heap s)(next_ref s := pl)"
    and "next_ref s1 = Suc (next_ref s)"
  shows "table_ok (AList.update (ID (PluginObj pl)) (next_ref s) acc) s1"
proof -
  have fresh: "next_ref s \<notin> snd ` set acc"
    using assms(1) by (force simp add: table_ok_def)
  have d1: "distinct (map fst (AList.update (ID (PluginObj pl)) (next_ref s) acc))"
    using assms(1) by (simp add: table_ok_def distinct_update)
  have d2: "distinct (map snd (AList.update (ID (PluginObj pl)) (next_ref s) acc))"
    using assms(1) fresh by (simp add: table_ok_def distinct_snd_update)
  have el: "\<forall>(k, r) \<in> set (AList.update (ID (PluginObj pl)) (next_ref s) acc).
              r < next_ref s1 \<and> ID (PluginObj (heap s1 r)) = k"
  proof (clarify)
    fix k r
    assume "(k, r) \<in> set (AList.update (ID (PluginObj pl)) (next_ref s) acc)"
    then consider "(k, r) = (ID (PluginObj pl), next_ref s)" | "(k, r) \<in> set acc"
      using set_update_subset [of "ID (PluginObj pl)" "next_ref s" acc] by blast
    then show "r < next_ref s1 \<and> ID (PluginObj (heap s1 r)) = k"
    proof cases
      case 1
      then show ?thesis using assms(2,3) by simp
    next
      case 2
      then have "r < next_ref s" "ID (PluginObj (heap s r)) = k"
        using assms(1) by (auto simp add: table_ok_def)
      then show ?thesis using assms(2,3) by simp
    qed
  qed
  from d1 d2 el show ?thesis
    unfolding table_ok_def by blast
qed

lemma entry_records_Cons:
  "entry_records env root (v # dir) =
     (if validFullID v then
        (case decode_entry env root v of None \<Rightarrow> entry_records env root dir
         | Some pl \<Rightarrow> pl # entry_records env root dir)
      else entry_records env root dir)"
  by (simp add: entry_records_def map_filter_simps split: option.split)

lemma loaded_table_snoc:
  "map_of (rev (map (\<lambda>pl. (ID (PluginObj pl), pl)) (pl # recs))) k =
     (case map_of (rev (map (\<lambda>pl. (ID (PluginObj pl), pl)) recs)) k of
        Some pl' \<Rightarrow> Some pl'
      | None \<Rightarrow> if k = ID (PluginObj pl) then Some pl else None)"
  by (simp add: map_add_def split: option.split)

lemma load_entries_ok:
  assumes "\<forall>v \<in> set dir. validFullID v \<longrightarrow> decode_entry env (Root (config s)) v \<noteq> None"
    and "table_ok acc s"
  shows "\<exists>plugins s1. load_entries env dir acc s = (Inr plugins, s1)
     \<and> table_ok plugins s1
     \<and> trace s1 = trace s @
         map (\<lambda>v. EvReadFile (filepath_Join [Root (config s), v, configFileName]))
           (filter validFullID dir)
     \<and> (\<forall>k. map_option (heap s1) (map_of plugins k) =
            (case map_of (rev (map (\<lambda>pl. (ID (PluginObj pl), pl))
                                 (entry_records env (Root (config s)) dir))) k of
               Some pl \<Rightarrow> Some pl
             | None \<Rightarrow> map_option (heap s) (map_of acc k)))"
  using assms
proof (induction dir arbitrary: acc s)
  case Nil
  then show ?case by (simp add: entry_records_def map_filter_simps)
next
  case (Cons v dir)
  show ?case
  proof (cases "validFullID v")
    case False
    have "\<forall>v \<in> set dir. validFullID v \<longrightarrow> decode_entry env (Root (config s)) v \<noteq> None"
      using Cons.prems(1) by simp
    from Cons.IH [OF this Cons.prems(2)] show ?thesis
      using False by (simp add: entry_records_Cons)
  next
    case True
    then obtain pl where dec: "decode_entry env (Root (config s)) v = Some pl"
      using Cons.prems(1) by auto
    from loadPlugin_ok [OF dec] obtain s1 where
      lp: "loadPlugin env v s = (Inr (next_ref s), s1)"
      and hp: "heap s1 = (heap s)(next_ref s := pl)" and nr: "next_ref s1 = Suc (next_ref s)"
      and tr: "trace s1 = trace s @
                 [EvReadFile (filepath_Join [Root (config s), v, configFileName])]"
      and cf: "config s1 = config s"
      by blast
    let ?acc = "AList.update (ID (PluginObj pl)) (next_ref s) acc"
    have step: "load_entries env (v # dir) acc s = load_entries env dir ?acc s1"
      using True lp hp by (simp add: GetID_def)
    have all: "\<forall>v \<in> set dir. validFullID v \<longrightarrow> decode_entry env (Root (config s1)) v \<noteq> None"
      using Cons.prems(1) cf by simp
    have tok: "table_ok ?acc s1"
      by (rule table_ok_update [OF Cons.prems(2) hp nr])
    from Cons.IH [OF all tok] obtain plugins s2 where
      le: "load_entries env dir ?acc s1 = (Inr plugins, s2)"
      and tk: "table_ok plugins s2"
      and tr2: "trace s2 = trace s1 @
         map (\<lambda>v. EvReadFile (filepath_Join [Root (config s1), v, configFileName]))
           (filter validFullID dir)"
      and mp: "\<forall>k. map_option (heap s2) (map_of plugins k) =
            (case map_of (rev (map (\<lambda>pl. (ID (PluginObj pl), pl))
                                 (entry_records env (Root (config s1)) dir))) k of
               Some pl \<Rightarrow> Some pl
             | None \<Rightarrow> map_option (heap s1) (map_of ?acc k))"
      by blast
    have old: "\<And>k. map_option (heap s1) (map_of ?acc k) =
                 (if k = ID (PluginObj pl) then Some pl
                  else map_option (heap s) (map_of acc k))"
    proof -
      fix k
      show "map_option (heap s1) (map_of ?acc k) =
                 (if k = ID (PluginObj pl) then Some pl
                  else map_option (heap s) (map_of acc k))"
      proof (cases "k = ID (PluginObj pl)")
        case True
        then show ?thesis by (simp add: update_conv' hp)
      next
        case False
        show ?thesis
        proof (cases "map_of acc k")
          case None
          then show ?thesis using False by (simp add: update_conv')
        next
          case (Some r)
          then have "(k, r) \<in> set acc" by (rule map_of_SomeD)
          then have "r < next_ref s"
            using Cons.prems(2) by (auto simp add: table_ok_def)
          then show ?thesis using False Some by (simp add: update_conv' hp)
        qed
      qed
    qed
    have mp': "\<forall>k. map_option (heap s2) (map_of plugins k) =
            (case map_of (rev (map (\<lambda>pl. (ID (PluginObj pl), pl))
                                 (entry_records env (Root (config s)) (v # dir)))) k of
               Some pl \<Rightarrow> Some pl
             | None \<Rightarrow> map_option (heap s) (map_of acc k))"
    proof
      fix k
      have er: "entry_records env (Root (config s)) (v # dir)
                  = pl # entry_records env (Root (config s)) dir"
        using True dec by (simp add: entry_records_Cons)
      show "map_option (heap s2) (map_of plugins k) =
            (case map_of (rev (map (\<lambda>pl. (ID (PluginObj pl), pl))
                                 (entry_records env (Root (config s)) (v # dir)))) k of
               Some pl \<Rightarrow> Some pl
             | None \<Rightarrow> map_option (heap s) (map_of acc k))"
      proof (cases "map_of (rev (map (\<lambda>pl. (ID (PluginObj pl), pl))
                                 (entry_records env (Root (config s)) dir))) k")
        case None
        have "map_option (heap s2) (map_of plugins k) = map_option (heap s1) (map_of ?acc k)"
          using mp [rule_format, of k] None cf by simp
        also have "\<dots> = (if k = ID (PluginObj pl) then Some pl
                  else map_option (heap s) (map_of acc k))"
          by (rule old)
        finally show ?thesis
          unfolding er loaded_table_snoc None by simp
      next
        case (Some pl')
        have "map_option (heap s2) (map_of plugins k) = Some pl'"
          using mp [rule_format, of k] Some cf by simp
        then show ?thesis
          unfolding er loaded_table_snoc Some by simp
      qed
    qed
    have tr': "trace s2 = trace s @
         map (\<lambda>v. EvReadFile (filepath_Join [Root (config s), v, configFileName]))
           (filter validFullID (v # dir))"
      using tr2 tr cf True by simp
    show ?thesis
      unfolding step using le tk tr' mp' by blast
  qed
qed

section \<open>Phase 2\<close>

lemma read_paths_simps [simp]:
  "read_paths [] = []"
  "read_paths (xs @ ys) = read_paths xs @ read_paths ys"
  "read_paths (EvReadFile path # xs) = path # read_paths xs"
  "read_paths (EvPluginRestore p r # xs) = read_paths xs"
  "read_paths (EvReattach p # xs) = read_paths xs"
  "read_paths (EvMkdirAll path perm # xs) = read_paths xs"
  "read_paths (EvLog lvl fmt args # xs) = read_paths xs"
  "read_paths (EvUpdate p # xs) = read_paths xs"
  "read_paths (EvEnable p f # xs) = read_paths xs"
  "read_paths (EvWgDone # xs) = read_paths xs"
  "read_paths (EvWgAdd n # xs) = read_paths xs"
  "read_paths (EvWgWait # xs) = read_paths xs"
  "read_paths (EvSetAll al # xs) = read_paths xs"
  "read_paths (EvReadDir path # xs) = read_paths xs"
  "read_paths (replicate n (EvMkdirAll path perm)) = []"
  "read_paths (map EvReadFile ps) = ps"
  by (simp_all add: read_paths_def map_filter_def comp_def)

lemma failure_log_None: "(failure_log env cfg pl = None) = task_publishes env cfg pl"
  by (auto simp add: failure_log_def task_publishes_def split: option.splits)

text \<open>What one task does, whichever way it ends.\<close>

lemma recover_task_summary:
  "\<exists>evs. trace (recover_task env p s) = trace s @ evs
     \<and> read_paths evs = [] \<and> (\<forall>al. EvSetAll al \<notin> set evs) \<and> EvWgWait \<notin> set evs
     \<and> length (filter ((=) EvWgDone) evs) = 1
     \<and> (\<forall>q. EvUpdate q \<in> set evs = (q = p \<and> task_publishes env (config s) (heap s p)))
     \<and> (\<forall>e. failure_log env (config s) (heap s p) = Some e \<longrightarrow> e \<in> set evs)
     \<and> (\<forall>k. store (recover_task env p s) k =
            (if task_publishes env (config s) (heap s p) \<and> k = ID (PluginObj (heap s p))
             then Some p else store s k))"
proof (cases rule: task_cases [of env s p])
  case (reattach_failed err)
  then show ?thesis
    by (auto simp add: recover_task_def task_body_reattach_failed task_publishes_def
          failure_log_def)
next
  case (mkdir_failed err)
  then show ?thesis
    by (auto simp add: recover_task_def task_body_mkdir_failed task_publishes_def
          failure_log_def)
next
  case published
  then have tp: "task_publishes env (config s) (heap s p)"
    by (auto simp add: task_publishes_def)
  then have fl: "failure_log env (config s) (heap s p) = None"
    by (simp add: failure_log_None)
  show ?thesis
    using tp fl by (auto simp add: recover_task_def task_body_published [OF published]
                   split: option.split)
qed

lemma failure_log_cong:
  "heap s' r = heap s r \<Longrightarrow> config s' = config s \<Longrightarrow>
   failure_log env (config s') (heap s' r) = failure_log env (config s) (heap s r)"
  by simp

lemma tasks_ran_Nil: "tasks_ran env [] s s"
  by (simp add: tasks_ran_def)

lemma tasks_ran_cMap: "tasks_ran env U (s\<lparr>cMap := c\<rparr>) s' = tasks_ran env U s s'"
  by (simp add: tasks_ran_def cong: if_cong)

lemma table_ok_cMap: "table_ok U (s\<lparr>cMap := c\<rparr>) = table_ok U s"
  by (simp add: table_ok_def)

lemma table_ok_after_task:
  assumes "table_ok ((k, p) # U) s"
  shows "table_ok U (recover_task env p s)"
proof -
  from assms have rest: "distinct (map fst U)" "distinct (map snd U)"
      "\<forall>(k, r) \<in> set U. r < next_ref s \<and> ID (PluginObj (heap s r)) = k"
    unfolding table_ok_def by auto
  have fr: "next_ref (recover_task env p s) = next_ref s"
      "\<And>q. PluginObj (heap (recover_task env p s) q) = PluginObj (heap s q)"
    using recover_task_frame [where env = env and p = p and s = s] by simp_all
  show ?thesis
    unfolding table_ok_def using rest fr by auto
qed

text \<open>One more task in front of a run of tasks.\<close>

lemma tasks_ran_Cons:
  assumes tok: "table_ok ((k, p) # U) s"
    and ran: "tasks_ran env U (recover_task env p s) s'"
  shows "tasks_ran env ((k, p) # U) s s'"
proof -
  let ?sb = "recover_task env p s"
  from tok have dk: "k \<notin> fst ` set U" and dp: "p \<notin> snd ` set U"
    and idp: "ID (PluginObj (heap s p)) = k"
    unfolding table_ok_def by (auto simp add: image_iff)
  have fr: "config ?sb = config s" "wg ?sb = wg s - 1"
      "\<And>q. q \<noteq> p \<Longrightarrow> heap ?sb q = heap s q"
      "\<And>q. PluginObj (heap ?sb q) = PluginObj (heap s q)"
    using recover_task_frame [where env = env and p = p and s = s] by simp_all
  have "\<exists>evs1. trace ?sb = trace s @ evs1 \<and> read_paths evs1 = []
     \<and> (\<forall>al. EvSetAll al \<notin> set evs1) \<and> EvWgWait \<notin> set evs1
     \<and> length (filter ((=) EvWgDone) evs1) = 1
     \<and> (\<forall>q. EvUpdate q \<in> set evs1 = (q = p \<and> task_publishes env (config s) (heap s p)))
     \<and> (\<forall>e. failure_log env (config s) (heap s p) = Some e \<longrightarrow> e \<in> set evs1)
     \<and> (\<forall>k'. store ?sb k' =
            (if task_publishes env (config s) (heap s p) \<and> k' = k then Some p else store s k'))"
    using recover_task_summary [of env p s] idp by (simp cong: if_cong)
  then obtain evs1 where
    t1: "trace ?sb = trace s @ evs1" and rp1: "read_paths evs1 = []"
    and sa1: "\<forall>al. EvSetAll al \<notin> set evs1" and ww1: "EvWgWait \<notin> set evs1"
    and dn1: "length (filter ((=) EvWgDone) evs1) = 1"
    and up1: "\<forall>q. EvUpdate q \<in> set evs1 = (q = p \<and> task_publishes env (config s) (heap s p))"
    and lg1: "\<forall>e. failure_log env (config s) (heap s p) = Some e \<longrightarrow> e \<in> set evs1"
    and st1: "\<forall>k'. store ?sb k' =
            (if task_publishes env (config s) (heap s p) \<and> k' = k then Some p else store s k')"
    by (elim exE conjE) (rule that)
  from ran obtain evs2 where
    t2: "trace s' = trace ?sb @ evs2" and rp2: "read_paths evs2 = []"
    and sa2: "\<forall>al. EvSetAll al \<notin> set evs2" and ww2: "EvWgWait \<notin> set evs2"
    and dn2: "length (filter ((=) EvWgDone) evs2) = length U"
    and up2: "\<forall>(k, r) \<in> set U.
                EvUpdate r \<in> set evs2 = task_publishes env (config ?sb) (heap ?sb r)"
    and in2: "\<forall>q. EvUpdate q \<in> set evs2 \<longrightarrow> q \<in> snd ` set U"
    and lg2: "\<forall>(k, r) \<in> set U. \<forall>e. failure_log env (config ?sb) (heap ?sb r) = Some e
                \<longrightarrow> e \<in> set evs2"
    and st2: "\<forall>k'. store s' k' =
            (if \<exists>r. (k', r) \<in> set U \<and> task_publishes env (config ?sb) (heap ?sb r)
             then map_of U k' else store ?sb k')"
    and wg2: "wg s' = wg ?sb - int (length U)"
    and cf2: "config s' = config ?sb"
    and po2: "\<forall>q. PluginObj (heap s' q) = PluginObj (heap ?sb q)"
    and hp2: "\<forall>q. q \<notin> snd ` set U \<longrightarrow> heap s' q = heap ?sb q"
    unfolding tasks_ran_def by (elim exE conjE) (rule that)
  have same: "\<And>k' r. (k', r) \<in> set U \<Longrightarrow>
      task_publishes env (config ?sb) (heap ?sb r) = task_publishes env (config s) (heap s r)"
    and samel: "\<And>k' r. (k', r) \<in> set U \<Longrightarrow>
      failure_log env (config ?sb) (heap ?sb r) = failure_log env (config s) (heap s r)"
  proof -
    fix k' r
    assume "(k', r) \<in> set U"
    then have "r \<noteq> p" using dp by force
    then show "task_publishes env (config ?sb) (heap ?sb r)
                 = task_publishes env (config s) (heap s r)"
      and "failure_log env (config ?sb) (heap ?sb r) = failure_log env (config s) (heap s r)"
      using fr by simp_all
  qed
  have c1: "trace s' = trace s @ (evs1 @ evs2)"
    unfolding t2 t1 by simp
  have c2: "read_paths (evs1 @ evs2) = []"
    using rp1 rp2 by simp
  have c3: "\<forall>al. EvSetAll al \<notin> set (evs1 @ evs2)"
    using sa1 sa2 by simp
  have c3w: "EvWgWait \<notin> set (evs1 @ evs2)"
    using ww1 ww2 by simp
  have c4: "length (filter ((=) EvWgDone) (evs1 @ evs2)) = length ((k, p) # U)"
    using dn1 dn2 by simp
  have c5: "\<forall>(k, r) \<in> set ((k, p) # U).
              EvUpdate r \<in> set (evs1 @ evs2) = task_publishes env (config s) (heap s r)"
  proof (clarify)
    fix k' r
    assume m: "(k', r) \<in> set ((k, p) # U)"
    show "EvUpdate r \<in> set (evs1 @ evs2) = task_publishes env (config s) (heap s r)"
    proof (cases "r = p")
      case True
      then have "EvUpdate r \<notin> set evs2"
        using in2 dp by blast
      then show ?thesis
        using up1 True by simp
    next
      case False
      then have m': "(k', r) \<in> set U"
        using m by simp
      have "EvUpdate r \<notin> set evs1"
        using up1 False by simp
      then show ?thesis
        using up2 m' same [OF m'] by auto
    qed
  qed
  have c5a: "\<forall>q. EvUpdate q \<in> set (evs1 @ evs2) \<longrightarrow> q \<in> snd ` set ((k, p) # U)"
    using up1 in2 by auto
  have c5b: "\<forall>(k, r) \<in> set ((k, p) # U). \<forall>e. failure_log env (config s) (heap s r) = Some e
               \<longrightarrow> e \<in> set (evs1 @ evs2)"
  proof (clarify)
    fix k' r e
    assume m: "(k', r) \<in> set ((k, p) # U)"
      and n: "failure_log env (config s) (heap s r) = Some e"
    show "e \<in> set (evs1 @ evs2)"
    proof (cases "(k', r) = (k, p)")
      case True
      then show ?thesis using lg1 n by auto
    next
      case False
      then have m': "(k', r) \<in> set U"
        using m by auto
      then have "e \<in> set evs2"
        using lg2 n samel [OF m'] by auto
      then show ?thesis by auto
    qed
  qed
  have c6: "\<forall>k'. store s' k' =
            (if \<exists>r. (k', r) \<in> set ((k, p) # U) \<and> task_publishes env (config s) (heap s r)
             then map_of ((k, p) # U) k' else store s k')"
  proof
    fix k'
    show "store s' k' =
            (if \<exists>r. (k', r) \<in> set ((k, p) # U) \<and> task_publishes env (config s) (heap s r)
             then map_of ((k, p) # U) k' else store s k')"
    proof (cases "k' = k")
      case True
      have no: "\<not> (\<exists>r. (k', r) \<in> set U \<and> task_publishes env (config ?sb) (heap ?sb r))"
        using dk True by force
      have "store s' k' = store ?sb k'"
        by (simp only: st2 [rule_format, of k'] no if_False)
      also have "\<dots> = (if task_publishes env (config s) (heap s p) then Some p else store s k')"
        using st1 True by simp
      finally show ?thesis
        using True dk by (auto simp add: image_iff)
    next
      case False
      have ex: "(\<exists>r. (k', r) \<in> set U \<and> task_publishes env (config ?sb) (heap ?sb r))
              = (\<exists>r. (k', r) \<in> set U \<and> task_publishes env (config s) (heap s r))"
        using same by auto
      have ex': "(\<exists>r. (k', r) \<in> set ((k, p) # U) \<and> task_publishes env (config s) (heap s r))
              = (\<exists>r. (k', r) \<in> set U \<and> task_publishes env (config s) (heap s r))"
        using False by auto
      have mo: "map_of ((k, p) # U) k' = map_of U k'"
        using False by simp
      have sb: "store ?sb k' = store s k'"
        using st1 False by simp
      show ?thesis
        by (simp only: st2 [rule_format, of k'] ex ex' mo sb)
    qed
  qed
  have c7: "wg s' = wg s - int (length ((k, p) # U))"
    unfolding wg2 using fr by simp
  have c8: "config s' = config s"
    unfolding cf2 using fr by simp
  have c9: "\<forall>q. PluginObj (heap s' q) = PluginObj (heap s q)"
    using po2 fr by simp
  have c10: "\<forall>q. q \<notin> snd ` set ((k, p) # U) \<longrightarrow> heap s' q = heap s q"
    using hp2 fr by simp
  show ?thesis
    unfolding tasks_ran_def
    by (rule exI [of _ "evs1 @ evs2"]) (intro conjI c1 c2 c3 c3w c4 c5 c5a c5b c6 c7 c8 c9 c10)
qed

text \<open>The order of a table does not matter.\<close>

lemma table_ok_move: "table_ok (A @ x # B) s = table_ok (x # A @ B) s"
  unfolding table_ok_def by auto

lemma map_of_move:
  assumes "fst x \<notin> fst ` set A"
  shows "map_of (A @ x # B) = map_of (x # A @ B)"
proof
  fix k
  have n: "map_of A (fst x) = None"
    using assms by (simp add: map_of_eq_None_iff)
  show "map_of (A @ x # B) k = map_of (x # A @ B) k"
    using n by (cases x) (simp add: map_add_def split: option.split)
qed

lemma tasks_ran_move:
  assumes "table_ok (x # A @ B) s"
  shows "tasks_ran env (A @ x # B) s s' = tasks_ran env (x # A @ B) s s'"
proof -
  from assms have "fst x \<notin> fst ` set A"
    unfolding table_ok_def by auto
  then have m: "map_of (A @ x # B) = map_of (x # A @ B)"
    by (rule map_of_move)
  have st: "set (A @ x # B) = set (x # A @ B)" and ln: "length (A @ x # B) = length (x # A @ B)"
    by auto
  show ?thesis
    unfolding tasks_ran_def m st ln ..
qed

lemma take_drop_move:
  "i < length xs \<Longrightarrow> ys @ xs = (ys @ take i xs) @ xs ! i # drop (Suc i) xs"
  by (simp add: id_take_nth_drop [symmetric])

text \<open>A goroutine that has been started runs.\<close>

lemma run_task_step:
  assumes tok: "table_ok (A @ (k, p) # B) s"
    and wgs: "wg s = int (length (A @ (k, p) # B))"
    and ih: "table_ok (A @ B) (recover_task env p s)
               \<Longrightarrow> wg (recover_task env p s) = int (length (A @ B))
               \<Longrightarrow> \<exists>s1. R = (Return None, emit EvWgWait s1)
                      \<and> tasks_ran env (A @ B) (recover_task env p s) s1"
  shows "\<exists>s1. R = (Return None, emit EvWgWait s1) \<and> tasks_ran env (A @ (k, p) # B) s s1"
proof -
  from tok have tok': "table_ok ((k, p) # A @ B) s"
    by (simp only: table_ok_move)
  have t1: "table_ok (A @ B) (recover_task env p s)"
    using tok' by (rule table_ok_after_task)
  have "wg (recover_task env p s) = wg s - 1"
    using recover_task_frame [where env = env and p = p and s = s] by simp
  then have w1: "wg (recover_task env p s) = int (length (A @ B))"
    using wgs by simp
  from ih [OF t1 w1] obtain s1 where r: "R = (Return None, emit EvWgWait s1)"
    and ran: "tasks_ran env (A @ B) (recover_task env p s) s1"
    by (elim exE conjE) (rule that)
  have "tasks_ran env ((k, p) # A @ B) s s1"
    using tok' ran by (rule tasks_ran_Cons)
  then have "tasks_ran env (A @ (k, p) # B) s s1"
    by (simp only: tasks_ran_move [OF tok'])
  with r show ?thesis
    by (intro exI [of _ s1] conjI)
qed

text \<open>The thread of \<^verbatim>\<open>reload\<close> starts the next goroutine.\<close>

lemma start_task_step:
  assumes tok: "table_ok ((k, p) # A) s"
    and wgs: "wg s = int (length ((k, p) # A))"
    and ih: "table_ok (A @ [(k, p)]) (s\<lparr>cMap := c\<rparr>)
               \<Longrightarrow> wg (s\<lparr>cMap := c\<rparr>) = int (length (A @ [(k, p)]))
               \<Longrightarrow> \<exists>s1. R = (Return None, emit EvWgWait s1)
                      \<and> tasks_ran env (A @ [(k, p)]) (s\<lparr>cMap := c\<rparr>) s1"
  shows "\<exists>s1. R = (Return None, emit EvWgWait s1) \<and> tasks_ran env ((k, p) # A) s s1"
proof -
  have tok': "table_ok ((k, p) # A @ []) s"
    using tok by simp
  have t1: "table_ok (A @ [(k, p)]) (s\<lparr>cMap := c\<rparr>)"
    using tok' by (simp only: table_ok_move table_ok_cMap)
  have w1: "wg (s\<lparr>cMap := c\<rparr>) = int (length (A @ [(k, p)]))"
    using wgs by simp
  from ih [OF t1 w1] obtain s1 where r: "R = (Return None, emit EvWgWait s1)"
    and ran: "tasks_ran env (A @ [(k, p)]) (s\<lparr>cMap := c\<rparr>) s1"
    by (elim exE conjE) (rule that)
  have "tasks_ran env (A @ [(k, p)]) s s1"
    using ran by (simp only: tasks_ran_cMap)
  then have "tasks_ran env ((k, p) # A @ []) s s1"
    by (simp only: tasks_ran_move [OF tok'])
  then have "tasks_ran env ((k, p) # A) s s1"
    by simp
  with r show ?thesis
    by (intro exI [of _ s1] conjI)
qed

text \<open>
  Whatever the scheduler chooses, Phase 2 returns, from \<^verbatim>\<open>wg.Wait()\<close>, and by then
  every task of the table has run: those the loop had still to start and those that
  were pending.
\<close>

lemma phase2_runs_all:
  "table_ok (todo @ pending) s \<Longrightarrow> wg s = int (length (todo @ pending))
     \<Longrightarrow> \<exists>s1. phase2 env sched todo pending s = (Return None, emit EvWgWait s1)
            \<and> tasks_ran env (todo @ pending) s s1"
proof (induction env sched todo pending s rule: phase2.induct)
  case (1 env i sched todo pending s)
  show ?case
  proof (cases "i < length pending")
    case True
    let ?A = "todo @ take i pending" and ?B = "drop (Suc i) pending"
    let ?p = "snd (pending ! i)" and ?k = "fst (pending ! i)"
    have sp: "todo @ pending = ?A @ (?k, ?p) # ?B"
      using take_drop_move [OF True, of todo] by simp
    have e: "phase2 env (RunTask i # sched) todo pending s
               = phase2 env sched todo (take i pending @ ?B) (recover_task env ?p s)"
      using True by simp
    have "\<exists>s1. phase2 env sched todo (take i pending @ ?B) (recover_task env ?p s)
                 = (Return None, emit EvWgWait s1)
             \<and> tasks_ran env (?A @ (?k, ?p) # ?B) s s1"
    proof (rule run_task_step)
      show "table_ok (?A @ (?k, ?p) # ?B) s"
        using "1.prems"(1) unfolding sp .
      show "wg s = int (length (?A @ (?k, ?p) # ?B))"
        using "1.prems"(2) unfolding sp .
      assume a: "table_ok (?A @ ?B) (recover_task env ?p s)"
        and b: "wg (recover_task env ?p s) = int (length (?A @ ?B))"
      show "\<exists>s1. phase2 env sched todo (take i pending @ ?B) (recover_task env ?p s)
                 = (Return None, emit EvWgWait s1)
             \<and> tasks_ran env (?A @ ?B) (recover_task env ?p s) s1"
        using "1.IH"(1) [OF True] a b by simp
    qed
    then show ?thesis
      unfolding e sp [symmetric] .
  next
    case False
    then show ?thesis
      using "1.IH"(2) "1.prems" by simp
  qed
next
  case (2 env sched k p todo pending s)
  let ?c = "(cMap s)(p \<mapsto> zero_controller)"
  have "\<exists>s1. phase2 env sched todo (pending @ [(k, p)]) (s\<lparr>cMap := ?c\<rparr>)
               = (Return None, emit EvWgWait s1)
           \<and> tasks_ran env ((k, p) # todo @ pending) s s1"
  proof (rule start_task_step)
    show "table_ok ((k, p) # todo @ pending) s"
      using "2.prems"(1) by simp
    show "wg s = int (length ((k, p) # todo @ pending))"
      using "2.prems"(2) by simp
    assume a: "table_ok ((todo @ pending) @ [(k, p)]) (s\<lparr>cMap := ?c\<rparr>)"
      and b: "wg (s\<lparr>cMap := ?c\<rparr>) = int (length ((todo @ pending) @ [(k, p)]))"
    show "\<exists>s1. phase2 env sched todo (pending @ [(k, p)]) (s\<lparr>cMap := ?c\<rparr>)
               = (Return None, emit EvWgWait s1)
           \<and> tasks_ran env ((todo @ pending) @ [(k, p)]) (s\<lparr>cMap := ?c\<rparr>) s1"
      using "2.IH" a b by simp
  qed
  then show ?case
    by simp
next
  case (3 env sched pending s)
  show ?case
  proof (cases "wg s = 0")
    case True
    then have "pending = []"
      using "3.prems"(2) by simp
    then have "phase2 env (RunMain # sched) [] pending s = (Return None, emit EvWgWait s)
        \<and> tasks_ran env ([] @ pending) s s"
      using True by (simp add: tasks_ran_Nil)
    then show ?thesis
      by (rule exI [of _ s])
  next
    case False
    then show ?thesis
      using "3.IH" "3.prems" by simp
  qed
next
  case (4 env k p todo pending s)
  let ?c = "(cMap s)(p \<mapsto> zero_controller)"
  have "\<exists>s1. phase2 env [] todo (pending @ [(k, p)]) (s\<lparr>cMap := ?c\<rparr>)
               = (Return None, emit EvWgWait s1)
           \<and> tasks_ran env ((k, p) # todo @ pending) s s1"
  proof (rule start_task_step)
    show "table_ok ((k, p) # todo @ pending) s"
      using "4.prems"(1) by simp
    show "wg s = int (length ((k, p) # todo @ pending))"
      using "4.prems"(2) by simp
    assume a: "table_ok ((todo @ pending) @ [(k, p)]) (s\<lparr>cMap := ?c\<rparr>)"
      and b: "wg (s\<lparr>cMap := ?c\<rparr>) = int (length ((todo @ pending) @ [(k, p)]))"
    show "\<exists>s1. phase2 env [] todo (pending @ [(k, p)]) (s\<lparr>cMap := ?c\<rparr>)
               = (Return None, emit EvWgWait s1)
           \<and> tasks_ran env ((todo @ pending) @ [(k, p)]) (s\<lparr>cMap := ?c\<rparr>) s1"
      using "4.IH" a b by simp
  qed
  then show ?case
    by simp
next
  case (5 env k p pending s)
  have nz: "wg s \<noteq> 0"
    using "5.prems"(2) by simp
  have "\<exists>s1. phase2 env [] [] pending (recover_task env p s) = (Return None, emit EvWgWait s1)
           \<and> tasks_ran env ([] @ (k, p) # pending) s s1"
  proof (rule run_task_step)
    show "table_ok ([] @ (k, p) # pending) s"
      using "5.prems"(1) by simp
    show "wg s = int (length ([] @ (k, p) # pending))"
      using "5.prems"(2) by simp
    assume a: "table_ok ([] @ pending) (recover_task env p s)"
      and b: "wg (recover_task env p s) = int (length ([] @ pending))"
    show "\<exists>s1. phase2 env [] [] pending (recover_task env p s) = (Return None, emit EvWgWait s1)
           \<and> tasks_ran env ([] @ pending) (recover_task env p s) s1"
      using "5.IH" [OF nz] a b by simp
  qed
  then show ?case
    using nz by simp
next
  case (6 env s)
  then have "phase2 env [] [] [] s = (Return None, emit EvWgWait s)
      \<and> tasks_ran env ([] @ []) s s"
    by (simp add: tasks_ran_Nil)
  then show ?case
    by (rule exI [of _ s])
qed

lemma table_ok_Nil: "table_ok [] s"
  by (simp add: table_ok_def)

text \<open>\<^verbatim>\<open>reload\<close> when Phase 1 succeeds, whatever the scheduler chooses in Phase 2.\<close>

lemma reload_ok:
  assumes "os_ReadDir env (Root (config s)) = Inr dir"
    and "\<forall>v \<in> set dir. validFullID v \<longrightarrow> decode_entry env (Root (config s)) v \<noteq> None"
  shows "\<exists>plugins s1 evs.
       fst (reload env s) = Return None
     \<and> table_ok plugins s1
     \<and> (\<forall>k. map_option (heap s1) (map_of plugins k) = loaded_table env (Root (config s)) dir k)
     \<and> trace (snd (reload env s)) = trace s @
         EvReadDir (Root (config s))
         # map (\<lambda>v. EvReadFile (filepath_Join [Root (config s), v, configFileName]))
             (filter validFullID dir)
         @ [EvSetAll plugins, EvWgAdd (length plugins)] @ evs @ [EvWgWait]
     \<and> read_paths evs = [] \<and> (\<forall>al. EvSetAll al \<notin> set evs) \<and> EvWgWait \<notin> set evs
     \<and> length (filter ((=) EvWgDone) evs) = length plugins
     \<and> (\<forall>(k, r) \<in> set plugins.
           EvUpdate r \<in> set evs = task_publishes env (config s) (heap s1 r))
     \<and> (\<forall>(k, r) \<in> set plugins. \<forall>e. failure_log env (config s) (heap s1 r) = Some e
           \<longrightarrow> e \<in> set evs)
     \<and> store (snd (reload env s)) = map_of plugins
     \<and> wg (snd (reload env s)) = 0
     \<and> config (snd (reload env s)) = config s
     \<and> (\<forall>q. PluginObj (heap (snd (reload env s)) q) = PluginObj (heap s1 q))"
proof -
  let ?s0 = "emit (EvReadDir (Root (config s))) s"
  have all0: "\<forall>v \<in> set dir. validFullID v \<longrightarrow> decode_entry env (Root (config ?s0)) v \<noteq> None"
    using assms(2) by simp
  from load_entries_ok [OF all0 table_ok_Nil] obtain plugins s1 where
    le: "load_entries env dir [] ?s0 = (Inr plugins, s1)"
    and tk: "table_ok plugins s1"
    and tr1: "trace s1 = trace ?s0 @
         map (\<lambda>v. EvReadFile (filepath_Join [Root (config ?s0), v, configFileName]))
           (filter validFullID dir)"
    and mp: "\<forall>k. map_option (heap s1) (map_of plugins k) =
            (case map_of (rev (map (\<lambda>pl. (ID (PluginObj pl), pl))
                                 (entry_records env (Root (config ?s0)) dir))) k of
               Some pl \<Rightarrow> Some pl
             | None \<Rightarrow> map_option (heap ?s0) (map_of [] k))"
    by (elim exE conjE) (rule that)
  have cf1: "config s1 = config s"
    using load_entries_frame [of env dir "[]" ?s0] le by simp
  let ?s3 = "wg_Add (length plugins) ((Store_SetAll plugins s1)\<lparr>wg := 0\<rparr>)"
  have s3: "heap ?s3 = heap s1" "next_ref ?s3 = next_ref s1" "config ?s3 = config s"
    "store ?s3 = map_of plugins" "wg ?s3 = int (length plugins)"
    "trace ?s3 = trace s1 @ [EvSetAll plugins, EvWgAdd (length plugins)]"
    using cf1 by (simp_all add: wg_Add_def Store_SetAll_def)
  have tk3: "table_ok (plugins @ []) ?s3"
    using tk s3(1,2) by (simp add: table_ok_def)
  have wg3: "wg ?s3 = int (length (plugins @ []))"
    using s3(5) by simp
  have "\<exists>s4. phase2 env (go_schedule env) plugins [] ?s3 = (Return None, emit EvWgWait s4)
          \<and> tasks_ran env plugins ?s3 s4"
    using phase2_runs_all [OF tk3 wg3, of env "go_schedule env"] by (simp only: append_Nil2)
  then obtain s4 where
    ph: "phase2 env (go_schedule env) plugins [] ?s3 = (Return None, emit EvWgWait s4)"
    and ran: "tasks_ran env plugins ?s3 s4"
    by (elim exE conjE) (rule that)
  from ran obtain evs where
    t4: "trace s4 = trace ?s3 @ evs" and rp: "read_paths evs = []"
    and sa: "\<forall>al. EvSetAll al \<notin> set evs" and ww: "EvWgWait \<notin> set evs"
    and dn: "length (filter ((=) EvWgDone) evs) = length plugins"
    and up: "\<forall>(k, r) \<in> set plugins.
               EvUpdate r \<in> set evs = task_publishes env (config ?s3) (heap ?s3 r)"
    and lg: "\<forall>(k, r) \<in> set plugins. \<forall>e. failure_log env (config ?s3) (heap ?s3 r) = Some e
               \<longrightarrow> e \<in> set evs"
    and st: "\<forall>k. store s4 k =
            (if \<exists>r. (k, r) \<in> set plugins \<and> task_publishes env (config ?s3) (heap ?s3 r)
             then map_of plugins k else store ?s3 k)"
    and wg4: "wg s4 = wg ?s3 - int (length plugins)"
    and cf4: "config s4 = config ?s3"
    and po4: "\<forall>q. PluginObj (heap s4 q) = PluginObj (heap ?s3 q)"
    unfolding tasks_ran_def by (elim exE conjE) (rule that)
  have wz: "wg s4 = 0"
    unfolding wg4 s3(5) by simp
  have run: "reload env s = (Return None, emit EvWgWait s4)"
    using assms(1) le ph by (simp add: reload_def Let_def)
  have st4: "store s4 = map_of plugins"
  proof
    fix k
    show "store s4 k = map_of plugins k"
      using st [rule_format, of k] s3(4) by (simp split: if_splits)
  qed
  have c3: "\<forall>k. map_option (heap s1) (map_of plugins k) = loaded_table env (Root (config s)) dir k"
    using mp by (simp add: loaded_table_def split: option.split)
  have c4: "trace (snd (reload env s)) = trace s @
         EvReadDir (Root (config s))
         # map (\<lambda>v. EvReadFile (filepath_Join [Root (config s), v, configFileName]))
             (filter validFullID dir)
         @ [EvSetAll plugins, EvWgAdd (length plugins)] @ evs @ [EvWgWait]"
    unfolding run using t4 s3(6) tr1 by simp
  have c8: "\<forall>(k, r) \<in> set plugins.
              EvUpdate r \<in> set evs = task_publishes env (config s) (heap s1 r)"
    using up unfolding s3(1,3) .
  have c8b: "\<forall>(k, r) \<in> set plugins. \<forall>e. failure_log env (config s) (heap s1 r) = Some e
           \<longrightarrow> e \<in> set evs"
    using lg unfolding s3(1,3) .
  have c9: "store (snd (reload env s)) = map_of plugins"
    unfolding run using st4 by simp
  have c10: "wg (snd (reload env s)) = 0" "config (snd (reload env s)) = config s"
    unfolding run using wz cf4 s3(3) by simp_all
  have c12: "\<forall>q. PluginObj (heap (snd (reload env s)) q) = PluginObj (heap s1 q)"
    unfolding run using po4 s3(1) by simp
  have c1: "fst (reload env s) = Return None"
    unfolding run by simp
  show ?thesis
    by (rule exI [of _ plugins], rule exI [of _ s1], rule exI [of _ evs])
       (intro conjI c1 tk c3 c4 rp sa ww dn c8 c8b c9 c10 c12)
qed

section \<open>Claims about \<^verbatim>\<open>reload\<close>\<close>

lemma NewManager_ok:
  assumes "os_MkdirAll env (Root cfg) 448 = None" and "os_MkdirAll env (ExecRoot cfg) 448 = None"
    and "Executor_Client env = None"
    and "os_ReadDir env (Root cfg) = Inr dir"
    and "\<forall>v \<in> set dir. validFullID v \<longrightarrow> decode_entry env (Root cfg) v \<noteq> None"
  shows "fst (NewManager env cfg s) = Return None"
proof (cases rule: NewManager_cases [of env cfg s])
  case (mkdir_root err)
  then show ?thesis using assms(1) by simp
next
  case (mkdir_exec err)
  then show ?thesis using assms(2) by simp
next
  case (client err)
  then show ?thesis using assms(3) by simp
next
  case reload
  let ?m = "(emit EvExecutorClient (emit (EvMkdirAll (ExecRoot cfg) 448)
            (emit (EvMkdirAll (Root cfg) 448) (s\<lparr>config := cfg\<rparr>))))\<lparr>cMap := Map.empty\<rparr>"
  have rd: "os_ReadDir env (Root (config ?m)) = Inr dir"
    using assms(4) by simp
  have all: "\<forall>v \<in> set dir. validFullID v \<longrightarrow> decode_entry env (Root (config ?m)) v \<noteq> None"
    using assms(5) by simp
  from reload_ok [OF rd all] have "fst (reload env ?m) = Return None"
    by (elim exE conjE)
  then obtain m4 where "reload env ?m = (Return None, m4)"
    by (cases "reload env ?m") simp
  then show ?thesis
    unfolding reload(4) by simp
qed

lemma dom_loaded_table:
  "dom (loaded_table env root dir) = (\<lambda>pl. ID (PluginObj pl)) ` set (entry_records env root dir)"
  by (simp add: loaded_table_def dom_map_of_conv_image_fst image_image)

lemma table_dom:
  assumes "\<forall>k. map_option f (map_of plugins k) = tab k" and "distinct (map fst plugins)"
  shows "dom (map_of plugins) = dom tab" and "length plugins = card (dom tab)"
proof -
  show d: "dom (map_of plugins) = dom tab"
  proof (rule set_eqI)
    fix k
    show "k \<in> dom (map_of plugins) \<longleftrightarrow> k \<in> dom tab"
      using assms(1) [rule_format, of k, symmetric] by (cases "map_of plugins k") auto
  qed
  have "card (dom (map_of plugins)) = length (map fst plugins)"
    unfolding dom_map_of_conv_image_fst using assms(2)
    by (metis distinct_card list.set_map)
  then show "length plugins = card (dom tab)"
    unfolding d by simp
qed

text \<open>
  C4. When every matching entry was loaded in Phase 1, \<^verbatim>\<open>reload\<close> returns nil,
  whatever the recovery tasks meet and in whatever order the scheduler runs them and the
  thread that waits for them; and so does \<^verbatim>\<open>NewManager\<close> once its directories and
  its engine client exist. The wait returns with the counter at zero, after as many tasks
  have finished as identities were loaded, and its return is the last thing that happens:
  no task step comes after it. Every loaded identity is in the Store; its record is
  published by \<^verbatim>\<open>Update\<close> exactly when its own task gets to the publish step (its
  own reattach succeeds and its own directory can be created), whatever happens in the
  tasks of the others; and a task that does not get there has logged its own failure:
  the error line that names this plugin, or its directory, and the error it met.
\<close>

theorem reload_isolates_task_failures:
  assumes "os_ReadDir env (Root (config s)) = Inr dir"
    and "\<forall>v \<in> set dir. validFullID v \<longrightarrow> decode_entry env (Root (config s)) v \<noteq> None"
  shows "fst (reload env s) = Return None
     \<and> wg (snd (reload env s)) = 0
     \<and> length (filter ((=) EvWgDone) (events_since s (snd (reload env s))))
         = card (dom (loaded_table env (Root (config s)) dir))
     \<and> last (events_since s (snd (reload env s))) = EvWgWait
     \<and> EvWgWait \<notin> set (butlast (events_since s (snd (reload env s))))
     \<and> (\<forall>k pl. loaded_table env (Root (config s)) dir k = Some pl \<longrightarrow>
          (\<exists>r. store (snd (reload env s)) k = Some r
             \<and> PluginObj (heap (snd (reload env s)) r) = PluginObj pl
             \<and> (EvUpdate r \<in> set (events_since s (snd (reload env s))))
                 = task_publishes env (config s) pl
             \<and> (\<not> task_publishes env (config s) pl \<longrightarrow>
                  (\<exists>e. failure_log env (config s) pl = Some e
                     \<and> e \<in> set (events_since s (snd (reload env s)))))))
     \<and> (os_MkdirAll env (Root (config s)) 448 = None
        \<and> os_MkdirAll env (ExecRoot (config s)) 448 = None
        \<and> Executor_Client env = None
        \<longrightarrow> fst (NewManager env (config s) s) = Return None)"
proof -
  let ?s' = "snd (reload env s)"
  let ?path = "\<lambda>v. EvReadFile (filepath_Join [Root (config s), v, configFileName])"
  from reload_ok [OF assms] obtain plugins s1 evs where
    c1: "fst (reload env s) = Return None"
    and tk: "table_ok plugins s1"
    and mp: "\<forall>k. map_option (heap s1) (map_of plugins k) = loaded_table env (Root (config s)) dir k"
    and tr: "trace ?s' = trace s @
         EvReadDir (Root (config s)) # map ?path (filter validFullID dir)
         @ [EvSetAll plugins, EvWgAdd (length plugins)] @ evs @ [EvWgWait]"
    and ww: "EvWgWait \<notin> set evs"
    and dn: "length (filter ((=) EvWgDone) evs) = length plugins"
    and up: "\<forall>(k, r) \<in> set plugins.
           EvUpdate r \<in> set evs = task_publishes env (config s) (heap s1 r)"
    and lg: "\<forall>(k, r) \<in> set plugins. \<forall>e. failure_log env (config s) (heap s1 r) = Some e
           \<longrightarrow> e \<in> set evs"
    and st: "store ?s' = map_of plugins"
    and wz: "wg ?s' = 0"
    and po: "\<forall>q. PluginObj (heap ?s' q) = PluginObj (heap s1 q)"
    by (elim exE conjE) (rule that)
  let ?pre = "EvReadDir (Root (config s)) # map ?path (filter validFullID dir)
         @ [EvSetAll plugins, EvWgAdd (length plugins)] @ evs"
  have ev: "events_since s ?s' = ?pre @ [EvWgWait]"
    using events_since_append [OF tr] by simp
  have dk: "distinct (map fst plugins)"
    using tk by (simp add: table_ok_def)
  have c3: "length (filter ((=) EvWgDone) (events_since s ?s'))
         = card (dom (loaded_table env (Root (config s)) dir))"
    unfolding ev table_dom(2) [OF mp dk, symmetric] using dn by (simp add: filter_map comp_def)
  have c4: "last (events_since s ?s') = EvWgWait"
    unfolding ev by simp
  have c4b: "EvWgWait \<notin> set (butlast (events_since s ?s'))"
    unfolding ev butlast_snoc using ww by auto
  have c5: "\<forall>k pl. loaded_table env (Root (config s)) dir k = Some pl \<longrightarrow>
          (\<exists>r. store ?s' k = Some r
             \<and> PluginObj (heap ?s' r) = PluginObj pl
             \<and> (EvUpdate r \<in> set (events_since s ?s')) = task_publishes env (config s) pl
             \<and> (\<not> task_publishes env (config s) pl \<longrightarrow>
                  (\<exists>e. failure_log env (config s) pl = Some e
                     \<and> e \<in> set (events_since s ?s'))))"
  proof (intro allI impI)
    fix k pl
    assume "loaded_table env (Root (config s)) dir k = Some pl"
    then have "map_option (heap s1) (map_of plugins k) = Some pl"
      using mp by simp
    then obtain r where r: "map_of plugins k = Some r" and h: "heap s1 r = pl"
      by auto
    have m: "(k, r) \<in> set plugins"
      using r by (rule map_of_SomeD)
    have u: "EvUpdate r \<in> set evs = task_publishes env (config s) pl"
      using up m h by auto
    have l: "\<forall>e. failure_log env (config s) pl = Some e \<longrightarrow> e \<in> set evs"
      using lg m h by auto
    have u': "(EvUpdate r \<in> set (events_since s ?s')) = task_publishes env (config s) pl"
      unfolding ev using u by auto
    have l': "\<not> task_publishes env (config s) pl \<longrightarrow>
                (\<exists>e. failure_log env (config s) pl = Some e \<and> e \<in> set (events_since s ?s'))"
    proof
      assume "\<not> task_publishes env (config s) pl"
      then have "failure_log env (config s) pl \<noteq> None"
        by (simp add: failure_log_None)
      then obtain e where e: "failure_log env (config s) pl = Some e"
        by auto
      then have "e \<in> set evs"
        using l by simp
      then have "e \<in> set (events_since s ?s')"
        unfolding ev by simp
      with e show "\<exists>e. failure_log env (config s) pl = Some e \<and> e \<in> set (events_since s ?s')"
        by (intro exI [of _ e] conjI)
    qed
    show "\<exists>r. store ?s' k = Some r
             \<and> PluginObj (heap ?s' r) = PluginObj pl
             \<and> (EvUpdate r \<in> set (events_since s ?s')) = task_publishes env (config s) pl
             \<and> (\<not> task_publishes env (config s) pl \<longrightarrow>
                  (\<exists>e. failure_log env (config s) pl = Some e
                     \<and> e \<in> set (events_since s ?s')))"
      using st r po h u' l' by (intro exI [of _ r]) simp
  qed
  have c6: "os_MkdirAll env (Root (config s)) 448 = None
        \<and> os_MkdirAll env (ExecRoot (config s)) 448 = None
        \<and> Executor_Client env = None
        \<longrightarrow> fst (NewManager env (config s) s) = Return None"
    using NewManager_ok [OF _ _ _ assms, of s] by blast
  show ?thesis
    by (intro conjI c1 wz c3 c4 c4b c5 c6)
qed

lemma ex_world_sel:
  "os_ReadDir (ex_world ex_dirs files decoded nm nr ns) ''/plugins'' = Inr [id_a, id_b, ''tmp'']"
  "os_MkdirAll (ex_world dirs files decoded [] nr ns) path perm = None"
  "Executor_Client (ex_world dirs files decoded nm nr ns) = None"
  by (simp_all add: ex_world_def ex_dirs_def)

lemma ex_cfg_sel: "config ex_init = ex_cfg" "Root ex_cfg = ''/plugins''"
  "ExecRoot ex_cfg = ''/run/plugins''" "LiveRestoreEnabled ex_cfg = False"
  by (simp_all add: ex_init_def ex_cfg_def)

lemma ex_all_decode:
  "\<forall>v \<in> set [id_a, id_b, ''tmp'']. validFullID v \<longrightarrow>
      decode_entry (ex_world ex_dirs ex_files ex_decoded nm nr ns) ''/plugins'' v \<noteq> None"
  using ex_valid by (simp add: ex_decode)

lemma ex_ids_differ: "id_a \<noteq> id_b"
  by (simp add: id_a_def id_b_def)

lemma entry_records_Nil: "entry_records env root [] = []"
  by (simp add: entry_records_def map_filter_simps)

lemma ex_plugin_ids: "ID (PluginObj plugin_a) = id_a" "ID (PluginObj plugin_b) = id_b"
  by (simp_all add: plugin_a_def plugin_b_def)

lemma ex_loaded_table:
  "loaded_table (ex_world ex_dirs ex_files ex_decoded nm nr ns) ''/plugins''
     [id_a, id_b, ''tmp''] id_a = Some plugin_a"
  "loaded_table (ex_world ex_dirs ex_files ex_decoded nm nr ns) ''/plugins''
     [id_a, id_b, ''tmp''] id_b = Some plugin_b"
  using ex_ids_differ
  by (simp_all add: loaded_table_def entry_records_Cons entry_records_Nil ex_valid ex_decode
        ex_plugin_ids)

lemma ex_task_publishes:
  "\<not> task_publishes (ex_world ex_dirs ex_files ex_decoded [] [id_a] []) ex_cfg plugin_a"
  "task_publishes (ex_world ex_dirs ex_files ex_decoded [] [id_a] []) ex_cfg plugin_b"
  using ex_ids_differ
  by (simp_all add: task_publishes_def reattach_result_def IsEnabled_def wants_propagation_def
        needs_propagation_def ex_world_def plugin_a_def plugin_b_def)

lemma ex_failure_log:
  "failure_log (ex_world ex_dirs ex_files ex_decoded [] [id_a] []) ex_cfg plugin_a
     = Some (EvLog Error ''failed to restore plugin '%s': %s''
               [LStr (Name (PluginObj plugin_a)), LErr (Errno ''no such process'')])"
  using ex_ids_differ
  by (simp add: failure_log_def reattach_result_def IsEnabled_def GetName_def
        ex_world_def plugin_a_def)

theorem reload_isolates_task_failures_witness:
  "os_ReadDir (ex_world ex_dirs ex_files ex_decoded [] [id_a] []) (Root (config ex_init))
     = Inr [id_a, id_b, ''tmp'']
   \<and> decode_entry (ex_world ex_dirs ex_files ex_decoded [] [id_a] []) (Root (config ex_init)) id_a
       = Some plugin_a
   \<and> decode_entry (ex_world ex_dirs ex_files ex_decoded [] [id_a] []) (Root (config ex_init)) id_b
       = Some plugin_b
   \<and> \<not> validFullID ''tmp''
   \<and> go_schedule (ex_world ex_dirs ex_files ex_decoded [] [id_a] [])
       = [RunMain, RunMain, RunMain, RunTask 1]
   \<and> \<not> task_publishes (ex_world ex_dirs ex_files ex_decoded [] [id_a] []) (config ex_init) plugin_a
   \<and> task_publishes (ex_world ex_dirs ex_files ex_decoded [] [id_a] []) (config ex_init) plugin_b
   \<and> fst (reload (ex_world ex_dirs ex_files ex_decoded [] [id_a] []) ex_init) = Return None
   \<and> wg (snd (reload (ex_world ex_dirs ex_files ex_decoded [] [id_a] []) ex_init)) = 0
   \<and> last (events_since ex_init
             (snd (reload (ex_world ex_dirs ex_files ex_decoded [] [id_a] []) ex_init))) = EvWgWait
   \<and> (\<exists>r. store (snd (reload (ex_world ex_dirs ex_files ex_decoded [] [id_a] []) ex_init)) id_b
              = Some r
          \<and> PluginObj (heap (snd (reload (ex_world ex_dirs ex_files ex_decoded [] [id_a] [])
                                     ex_init)) r) = PluginObj plugin_b
          \<and> EvUpdate r \<in> set (events_since ex_init
                (snd (reload (ex_world ex_dirs ex_files ex_decoded [] [id_a] []) ex_init))))
   \<and> (\<exists>r. store (snd (reload (ex_world ex_dirs ex_files ex_decoded [] [id_a] []) ex_init)) id_a
              = Some r
          \<and> EvUpdate r \<notin> set (events_since ex_init
                (snd (reload (ex_world ex_dirs ex_files ex_decoded [] [id_a] []) ex_init))))
   \<and> EvLog Error ''failed to restore plugin '%s': %s''
        [LStr (Name (PluginObj plugin_a)), LErr (Errno ''no such process'')]
       \<in> set (events_since ex_init
                (snd (reload (ex_world ex_dirs ex_files ex_decoded [] [id_a] []) ex_init)))
   \<and> fst (NewManager (ex_world ex_dirs ex_files ex_decoded [] [id_a] []) (config ex_init) ex_init)
       = Return None"
proof -
  let ?W = "ex_world ex_dirs ex_files ex_decoded [] [id_a] []"
  have rd: "os_ReadDir ?W (Root (config ex_init)) = Inr [id_a, id_b, ''tmp'']"
    by (simp add: ex_cfg_sel ex_world_sel)
  have all: "\<forall>v \<in> set [id_a, id_b, ''tmp'']. validFullID v \<longrightarrow>
      decode_entry ?W (Root (config ex_init)) v \<noteq> None"
    unfolding ex_cfg_sel by (rule ex_all_decode)
  note inst = reload_isolates_task_failures [OF rd all]
  from inst have ret: "fst (reload ?W ex_init) = Return None"
    and wz: "wg (snd (reload ?W ex_init)) = 0"
    and la: "last (events_since ex_init (snd (reload ?W ex_init))) = EvWgWait"
    and tab: "\<forall>k pl. loaded_table ?W (Root (config ex_init)) [id_a, id_b, ''tmp''] k = Some pl \<longrightarrow>
          (\<exists>r. store (snd (reload ?W ex_init)) k = Some r
             \<and> PluginObj (heap (snd (reload ?W ex_init)) r) = PluginObj pl
             \<and> (EvUpdate r \<in> set (events_since ex_init (snd (reload ?W ex_init))))
                 = task_publishes ?W (config ex_init) pl
             \<and> (\<not> task_publishes ?W (config ex_init) pl \<longrightarrow>
                  (\<exists>e. failure_log ?W (config ex_init) pl = Some e
                     \<and> e \<in> set (events_since ex_init (snd (reload ?W ex_init))))))"
    and nm: "os_MkdirAll ?W (Root (config ex_init)) 448 = None
        \<and> os_MkdirAll ?W (ExecRoot (config ex_init)) 448 = None
        \<and> Executor_Client ?W = None
        \<longrightarrow> fst (NewManager ?W (config ex_init) ex_init) = Return None"
    by blast+
  have b: "\<exists>r. store (snd (reload ?W ex_init)) id_b = Some r
          \<and> PluginObj (heap (snd (reload ?W ex_init)) r) = PluginObj plugin_b
          \<and> EvUpdate r \<in> set (events_since ex_init (snd (reload ?W ex_init)))"
    using tab [rule_format, of id_b plugin_b] ex_loaded_table(2) ex_task_publishes(2)
    unfolding ex_cfg_sel by auto
  have a: "\<exists>r. store (snd (reload ?W ex_init)) id_a = Some r
          \<and> EvUpdate r \<notin> set (events_since ex_init (snd (reload ?W ex_init)))"
    using tab [rule_format, of id_a plugin_a] ex_loaded_table(1) ex_task_publishes(1)
    unfolding ex_cfg_sel by auto
  have l: "EvLog Error ''failed to restore plugin '%s': %s''
        [LStr (Name (PluginObj plugin_a)), LErr (Errno ''no such process'')]
       \<in> set (events_since ex_init (snd (reload ?W ex_init)))"
    using tab [rule_format, of id_a plugin_a] ex_loaded_table(1) ex_task_publishes(1)
      ex_failure_log
    unfolding ex_cfg_sel by auto
  have n: "fst (NewManager ?W (config ex_init) ex_init) = Return None"
    using nm by (simp add: ex_world_sel)
  have sch: "go_schedule ?W = [RunMain, RunMain, RunMain, RunTask 1]"
    by (simp add: ex_world_def)
  show ?thesis
    using rd ret wz la a b l n sch ex_valid(3) ex_task_publishes
      ex_decode(1,2) [of "[]" "[id_a]" "[]"]
    unfolding ex_cfg_sel by simp
qed

text \<open>
  C6. A recovery task that reaches the re-enable step (it has published its record)
  calls enable, once and with force, exactly when live-restore is off and the record's
  \<^verbatim>\<open>Enabled\<close> flag is set; in every other case, and in a task that does not reach the
  step, no enable call is made. When that enable call fails, the error is logged, and
  it reaches nobody else: \<^verbatim>\<open>reload\<close> returns nil whenever Phase 1 succeeded, and so
  does \<^verbatim>\<open>NewManager\<close> once its directories and its engine client exist.
\<close>

theorem manual_restore_gate:
  "(EvUpdate p \<in> set (events_since s (recover_task env p s)) \<longrightarrow>
       (EvEnable p True \<in> set (events_since s (recover_task env p s)))
         = (\<not> LiveRestoreEnabled (config s) \<and> Enabled (PluginObj (heap s p)))
       \<and> length (filter ((=) (EvEnable p True)) (events_since s (recover_task env p s)))
         = (if \<not> LiveRestoreEnabled (config s) \<and> Enabled (PluginObj (heap s p)) then 1 else 0)
       \<and> (\<forall>err. \<not> LiveRestoreEnabled (config s) \<and> Enabled (PluginObj (heap s p))
               \<and> engine_start env (heap (recover_task env p s) p) = Some err
             \<longrightarrow> EvLog Error ''failed to enable plugin '%s': %s''
                   [LStr (Name (PluginObj (heap s p))), LErr err]
                   \<in> set (events_since s (recover_task env p s))))
   \<and> (\<forall>q force. EvEnable q force \<in> set (events_since s (recover_task env p s))
         \<longrightarrow> q = p \<and> force \<and> EvUpdate p \<in> set (events_since s (recover_task env p s)))
   \<and> (os_ReadDir env (Root (config s)) = Inr dir
       \<and> (\<forall>v \<in> set dir. validFullID v \<longrightarrow> decode_entry env (Root (config s)) v \<noteq> None)
       \<longrightarrow> fst (reload env s) = Return None
          \<and> (os_MkdirAll env (Root (config s)) 448 = None
              \<and> os_MkdirAll env (ExecRoot (config s)) 448 = None
              \<and> Executor_Client env = None
              \<longrightarrow> fst (NewManager env (config s) s) = Return None))"
proof -
  let ?evs = "events_since s (recover_task env p s)"
  have task: "(EvUpdate p \<in> set ?evs \<longrightarrow>
       (EvEnable p True \<in> set ?evs)
         = (\<not> LiveRestoreEnabled (config s) \<and> Enabled (PluginObj (heap s p)))
       \<and> length (filter ((=) (EvEnable p True)) ?evs)
         = (if \<not> LiveRestoreEnabled (config s) \<and> Enabled (PluginObj (heap s p)) then 1 else 0)
       \<and> (\<forall>err. \<not> LiveRestoreEnabled (config s) \<and> Enabled (PluginObj (heap s p))
               \<and> engine_start env (heap (recover_task env p s) p) = Some err
             \<longrightarrow> EvLog Error ''failed to enable plugin '%s': %s''
                   [LStr (Name (PluginObj (heap s p))), LErr err] \<in> set ?evs))
   \<and> (\<forall>q force. EvEnable q force \<in> set ?evs \<longrightarrow> q = p \<and> force \<and> EvUpdate p \<in> set ?evs)"
  proof (cases rule: task_cases [of env s p])
    case (reattach_failed err)
    then show ?thesis
      by (simp add: recover_task_reattach_failed)
  next
    case (mkdir_failed err)
    then show ?thesis
      by (simp add: recover_task_mkdir_failed)
  next
    case published
    show ?thesis
      unfolding recover_task_published(3) [OF published]
      by (auto simp add: IsEnabled_def GetName_def split: option.split)
  qed
  have rel: "os_ReadDir env (Root (config s)) = Inr dir
       \<and> (\<forall>v \<in> set dir. validFullID v \<longrightarrow> decode_entry env (Root (config s)) v \<noteq> None)
       \<longrightarrow> fst (reload env s) = Return None
          \<and> (os_MkdirAll env (Root (config s)) 448 = None
              \<and> os_MkdirAll env (ExecRoot (config s)) 448 = None
              \<and> Executor_Client env = None
              \<longrightarrow> fst (NewManager env (config s) s) = Return None)"
  proof (intro impI, elim conjE)
    assume rd: "os_ReadDir env (Root (config s)) = Inr dir"
      and all: "\<forall>v \<in> set dir. validFullID v \<longrightarrow> decode_entry env (Root (config s)) v \<noteq> None"
    from reload_ok [OF rd all] have r: "fst (reload env s) = Return None"
      by (elim exE conjE)
    have n: "os_MkdirAll env (Root (config s)) 448 = None
              \<and> os_MkdirAll env (ExecRoot (config s)) 448 = None
              \<and> Executor_Client env = None
              \<longrightarrow> fst (NewManager env (config s) s) = Return None"
      using NewManager_ok [OF _ _ _ rd all, of s] by blast
    from r n show "fst (reload env s) = Return None
          \<and> (os_MkdirAll env (Root (config s)) 448 = None
              \<and> os_MkdirAll env (ExecRoot (config s)) 448 = None
              \<and> Executor_Client env = None
              \<longrightarrow> fst (NewManager env (config s) s) = Return None)"
      by (rule conjI)
  qed
  from task rel show ?thesis
    by (intro conjI) (elim conjE, assumption)+
qed

theorem manual_restore_gate_witness:
  "EvUpdate 0 \<in> set (events_since (ex_loaded ex_loaded_volume)
       (recover_task (ex_world [] [] [] [] [] [''p1'']) 0 (ex_loaded ex_loaded_volume)))
   \<and> \<not> LiveRestoreEnabled (config (ex_loaded ex_loaded_volume))
   \<and> Enabled (PluginObj (heap (ex_loaded ex_loaded_volume) 0))
   \<and> engine_start (ex_world [] [] [] [] [] [''p1''])
        (heap (recover_task (ex_world [] [] [] [] [] [''p1'']) 0 (ex_loaded ex_loaded_volume)) 0)
       = Some (Errno ''exec format error'')
   \<and> EvEnable 0 True \<in> set (events_since (ex_loaded ex_loaded_volume)
       (recover_task (ex_world [] [] [] [] [] [''p1'']) 0 (ex_loaded ex_loaded_volume)))
   \<and> length (filter ((=) (EvEnable 0 True)) (events_since (ex_loaded ex_loaded_volume)
       (recover_task (ex_world [] [] [] [] [] [''p1'']) 0 (ex_loaded ex_loaded_volume)))) = 1
   \<and> EvLog Error ''failed to enable plugin '%s': %s'' [LStr ''vol'', LErr (Errno ''exec format error'')]
       \<in> set (events_since (ex_loaded ex_loaded_volume)
       (recover_task (ex_world [] [] [] [] [] [''p1'']) 0 (ex_loaded ex_loaded_volume)))
   \<and> os_ReadDir (ex_world ex_dirs ex_files ex_decoded [] [] [id_a, id_b]) (Root (config ex_init))
       = Inr [id_a, id_b, ''tmp'']
   \<and> fst (reload (ex_world ex_dirs ex_files ex_decoded [] [] [id_a, id_b]) ex_init) = Return None
   \<and> fst (NewManager (ex_world ex_dirs ex_files ex_decoded [] [] [id_a, id_b]) (config ex_init)
            ex_init) = Return None"
proof -
  let ?V = "ex_world [] [] [] [] [] [''p1'']"
  let ?S = "ex_loaded ex_loaded_volume"
  let ?W = "ex_world ex_dirs ex_files ex_decoded [] [] [id_a, id_b]"
  have a: "reattach_result ?V (heap ?S 0) = None"
    by (simp add: ex_task_defs)
  have b: "wants_propagation (heap ?S 0) \<longrightarrow>
       os_MkdirAll ?V (mount_target (config ?S) (heap ?S 0)) 493 = None"
    by (simp add: ex_task_defs)
  have u: "EvUpdate 0 \<in> set (events_since ?S (recover_task ?V 0 ?S))"
    unfolding recover_task_published(3) [OF a b] by simp
  have e: "engine_start ?V (heap (recover_task ?V 0 ?S) 0) = Some (Errno ''exec format error'')"
    unfolding recover_task_published(1) [OF a b] by (simp add: ex_task_defs)
  have c: "\<not> LiveRestoreEnabled (config ?S)" "Enabled (PluginObj (heap ?S 0))"
    "Name (PluginObj (heap ?S 0)) = ''vol''"
    by (simp_all add: ex_task_defs)
  have rd: "os_ReadDir ?W (Root (config ex_init)) = Inr [id_a, id_b, ''tmp'']"
    by (simp add: ex_cfg_sel ex_world_sel)
  have all: "\<forall>v \<in> set [id_a, id_b, ''tmp'']. validFullID v \<longrightarrow>
      decode_entry ?W (Root (config ex_init)) v \<noteq> None"
    unfolding ex_cfg_sel by (rule ex_all_decode)
  have mk: "os_MkdirAll ?W (Root (config ex_init)) 448 = None"
    "os_MkdirAll ?W (ExecRoot (config ex_init)) 448 = None" "Executor_Client ?W = None"
    by (simp_all add: ex_world_sel)
  show ?thesis
    using manual_restore_gate [of 0 ?S ?V "[]"]
      manual_restore_gate [of 0 ex_init ?W "[id_a, id_b, ''tmp'']"]
      u e c rd all mk
    by simp
qed

text \<open>
  C8, as stated, fails when another matching entry is corrupt: the first plugin's
  \<^verbatim>\<open>config.json\<close> parses, but \<^verbatim>\<open>reload\<close> stops at the second, never calls
  \<^verbatim>\<open>SetAll\<close>, and the Store has no record for the first.
\<close>

theorem corrupt_sibling_counterexample:
  "os_ReadDir (ex_world ex_dirs ex_files ex_decoded_corrupt [] [] []) (Root (config ex_init))
     = Inr [id_a, id_b, ''tmp'']
   \<and> validFullID id_a
   \<and> decode_entry (ex_world ex_dirs ex_files ex_decoded_corrupt [] [] []) (Root (config ex_init))
        id_a = Some plugin_a
   \<and> store (snd (reload (ex_world ex_dirs ex_files ex_decoded_corrupt [] [] []) ex_init))
        (ID (PluginObj plugin_a)) = None
   \<and> (\<forall>al. EvSetAll al \<notin> set (events_since ex_init
          (snd (reload (ex_world ex_dirs ex_files ex_decoded_corrupt [] [] []) ex_init))))"
proof -
  let ?W = "ex_world ex_dirs ex_files ex_decoded_corrupt [] [] []"
  have rd: "os_ReadDir ?W (Root (config ex_init)) = Inr [id_a, id_b, ''tmp'']"
    by (simp add: ex_cfg_sel ex_world_sel)
  have bad: "\<exists>v \<in> set [id_a, id_b, ''tmp''].
               validFullID v \<and> decode_entry ?W (Root (config ex_init)) v = None"
    unfolding ex_cfg_sel using ex_valid(2) ex_decode(4) by simp
  from reload_phase1_fail [OF rd bad] obtain err s1 vs where
    r: "reload ?W ex_init = (Return (Some err), s1)" and st: "store s1 = store ex_init"
    and tr: "trace s1 = trace ex_init @ EvReadDir (Root (config ex_init))
              # map (\<lambda>v. EvReadFile (filepath_Join [Root (config ex_init), v, configFileName])) vs"
    by (elim exE conjE) (rule that)
  have em: "store ex_init = Map.empty"
    by (simp add: ex_init_def)
  have no: "\<forall>al. EvSetAll al \<notin> set (events_since ex_init s1)"
    unfolding events_since_append [OF tr] by auto
  show ?thesis
    unfolding r snd_conv st em
    using rd ex_valid(1) ex_decode(3) [of "[]" "[]" "[]"] no
    unfolding ex_cfg_sel by simp
qed

text \<open>
  C8, amended. \<^verbatim>\<open>reload\<close> reads \<^verbatim>\<open>config.json\<close> only for entries whose name
  is in the full-ID format: an entry with another name is never loaded and contributes
  nothing, whatever it contains. When every matching entry's \<^verbatim>\<open>config.json\<close> is
  read and decoded, each of them is read once, in directory order, and the Store ends
  up with exactly one record for each identity that these files declare, filed under
  that identity: the record of the last entry that declares it.
\<close>

theorem reload_store_contents:
  assumes "os_ReadDir env (Root (config s)) = Inr dir"
  shows "(\<exists>vs. read_paths (events_since s (snd (reload env s))) =
              map (\<lambda>v. filepath_Join [Root (config s), v, configFileName]) vs
           \<and> set vs \<subseteq> {v \<in> set dir. validFullID v})
     \<and> entry_records env (Root (config s)) dir
         = entry_records env (Root (config s)) (filter validFullID dir)
     \<and> ((\<forall>v \<in> set dir. validFullID v \<longrightarrow> decode_entry env (Root (config s)) v \<noteq> None) \<longrightarrow>
          read_paths (events_since s (snd (reload env s))) =
            map (\<lambda>v. filepath_Join [Root (config s), v, configFileName]) (filter validFullID dir)
          \<and> (\<forall>k. map_option (\<lambda>r. PluginObj (heap (snd (reload env s)) r))
                     (store (snd (reload env s)) k)
                  = map_option PluginObj (loaded_table env (Root (config s)) dir k))
          \<and> dom (store (snd (reload env s)))
              = (\<lambda>pl. ID (PluginObj pl)) ` set (entry_records env (Root (config s)) dir))"
proof -
  let ?s' = "snd (reload env s)"
  let ?path = "\<lambda>v. filepath_Join [Root (config s), v, configFileName]"
  have ok: "(\<forall>v \<in> set dir. validFullID v \<longrightarrow> decode_entry env (Root (config s)) v \<noteq> None) \<longrightarrow>
          read_paths (events_since s ?s') = map ?path (filter validFullID dir)
          \<and> (\<forall>k. map_option (\<lambda>r. PluginObj (heap ?s' r)) (store ?s' k)
                  = map_option PluginObj (loaded_table env (Root (config s)) dir k))
          \<and> dom (store ?s')
              = (\<lambda>pl. ID (PluginObj pl)) ` set (entry_records env (Root (config s)) dir)"
  proof
    assume all: "\<forall>v \<in> set dir. validFullID v \<longrightarrow> decode_entry env (Root (config s)) v \<noteq> None"
    from reload_ok [OF assms all] obtain plugins s1 evs where
      tk: "table_ok plugins s1"
      and mp: "\<forall>k. map_option (heap s1) (map_of plugins k)
                 = loaded_table env (Root (config s)) dir k"
      and tr: "trace ?s' = trace s @
         EvReadDir (Root (config s))
         # map (\<lambda>v. EvReadFile (?path v)) (filter validFullID dir)
         @ [EvSetAll plugins, EvWgAdd (length plugins)] @ evs @ [EvWgWait]"
      and rp: "read_paths evs = []"
      and st: "store ?s' = map_of plugins"
      and po: "\<forall>q. PluginObj (heap ?s' q) = PluginObj (heap s1 q)"
      by (elim exE conjE) (rule that)
    have ev: "events_since s ?s' =
         EvReadDir (Root (config s))
         # map (\<lambda>v. EvReadFile (?path v)) (filter validFullID dir)
         @ [EvSetAll plugins, EvWgAdd (length plugins)] @ evs @ [EvWgWait]"
      by (rule events_since_append) (rule tr)
    have mfe: "map (\<lambda>v. EvReadFile (?path v)) (filter validFullID dir)
                 = map EvReadFile (map ?path (filter validFullID dir))"
      by simp
    have a: "read_paths (events_since s ?s') = map ?path (filter validFullID dir)"
      unfolding ev mfe using rp by (simp del: map_map)
    have b: "\<forall>k. map_option (\<lambda>r. PluginObj (heap ?s' r)) (store ?s' k)
                  = map_option PluginObj (loaded_table env (Root (config s)) dir k)"
    proof
      fix k
      have "map_option (\<lambda>r. PluginObj (heap ?s' r)) (store ?s' k)
              = map_option PluginObj (map_option (heap s1) (map_of plugins k))"
        unfolding st using po by (simp add: option.map_comp comp_def)
      then show "map_option (\<lambda>r. PluginObj (heap ?s' r)) (store ?s' k)
                  = map_option PluginObj (loaded_table env (Root (config s)) dir k)"
        using mp by simp
    qed
    have dk: "distinct (map fst plugins)"
      using tk by (simp add: table_ok_def)
    have c: "dom (store ?s')
              = (\<lambda>pl. ID (PluginObj pl)) ` set (entry_records env (Root (config s)) dir)"
      unfolding st table_dom(1) [OF mp dk] by (rule dom_loaded_table)
    from a b c show "read_paths (events_since s ?s') = map ?path (filter validFullID dir)
          \<and> (\<forall>k. map_option (\<lambda>r. PluginObj (heap ?s' r)) (store ?s' k)
                  = map_option PluginObj (loaded_table env (Root (config s)) dir k))
          \<and> dom (store ?s')
              = (\<lambda>pl. ID (PluginObj pl)) ` set (entry_records env (Root (config s)) dir)"
      by (intro conjI)
  qed
  have only: "\<exists>vs. read_paths (events_since s ?s') = map ?path vs
           \<and> set vs \<subseteq> {v \<in> set dir. validFullID v}"
  proof (cases "\<forall>v \<in> set dir. validFullID v \<longrightarrow> decode_entry env (Root (config s)) v \<noteq> None")
    case True
    with ok have "read_paths (events_since s ?s') = map ?path (filter validFullID dir)"
      by blast
    moreover have "set (filter validFullID dir) \<subseteq> {v \<in> set dir. validFullID v}"
      by auto
    ultimately show ?thesis by blast
  next
    case False
    then have bad: "\<exists>v \<in> set dir. validFullID v \<and> decode_entry env (Root (config s)) v = None"
      by auto
    from reload_phase1_fail [OF assms bad] obtain err s1 vs where
      r: "reload env s = (Return (Some err), s1)"
      and tr: "trace s1 = trace s @ EvReadDir (Root (config s))
              # map (\<lambda>v. EvReadFile (?path v)) vs"
      and sub: "set vs \<subseteq> {v \<in> set dir. validFullID v}"
      by (elim exE conjE) (rule that)
    have mfe: "map (\<lambda>v. EvReadFile (?path v)) vs = map EvReadFile (map ?path vs)"
      by simp
    have "read_paths (events_since s ?s') = map ?path vs"
      unfolding r snd_conv events_since_append [OF tr] mfe by (simp del: map_map)
    with sub show ?thesis by blast
  qed
  have flt: "entry_records env (Root (config s)) dir
         = entry_records env (Root (config s)) (filter validFullID dir)"
    by (simp add: entry_records_def)
  from only flt ok show ?thesis
    by (intro conjI)
qed

lemma ex_tmp_decodes:
  "decode_entry (ex_world ex_dirs ex_files ex_decoded nm nr ns) ''/plugins'' ''tmp''
     = Some plugin_a"
  by (simp add: decode_entry_def filepath_Join_def filepath_Clean_def configFileName_def
        ex_world_def ex_files_def ex_decoded_def id_a_def id_b_def)

theorem reload_store_contents_witness:
  "os_ReadDir (ex_world ex_dirs ex_files ex_decoded [] [] []) (Root (config ex_init))
     = Inr [id_a, id_b, ''tmp'']
   \<and> validFullID id_a \<and> validFullID id_b \<and> \<not> validFullID ''tmp''
   \<and> decode_entry (ex_world ex_dirs ex_files ex_decoded [] [] []) (Root (config ex_init)) ''tmp''
       = Some plugin_a
   \<and> read_paths (events_since ex_init
        (snd (reload (ex_world ex_dirs ex_files ex_decoded [] [] []) ex_init)))
       = [filepath_Join [Root (config ex_init), id_a, configFileName],
          filepath_Join [Root (config ex_init), id_b, configFileName]]
   \<and> map_option (\<lambda>r. PluginObj (heap
          (snd (reload (ex_world ex_dirs ex_files ex_decoded [] [] []) ex_init)) r))
        (store (snd (reload (ex_world ex_dirs ex_files ex_decoded [] [] []) ex_init)) id_a)
       = Some (PluginObj plugin_a)
   \<and> map_option (\<lambda>r. PluginObj (heap
          (snd (reload (ex_world ex_dirs ex_files ex_decoded [] [] []) ex_init)) r))
        (store (snd (reload (ex_world ex_dirs ex_files ex_decoded [] [] []) ex_init)) id_b)
       = Some (PluginObj plugin_b)
   \<and> dom (store (snd (reload (ex_world ex_dirs ex_files ex_decoded [] [] []) ex_init)))
       = {id_a, id_b}"
proof -
  let ?W = "ex_world ex_dirs ex_files ex_decoded [] [] []"
  have rd: "os_ReadDir ?W (Root (config ex_init)) = Inr [id_a, id_b, ''tmp'']"
    by (simp add: ex_cfg_sel ex_world_sel)
  have all: "\<forall>v \<in> set [id_a, id_b, ''tmp'']. validFullID v \<longrightarrow>
      decode_entry ?W (Root (config ex_init)) v \<noteq> None"
    unfolding ex_cfg_sel by (rule ex_all_decode)
  have recs: "entry_records ?W (Root (config ex_init)) [id_a, id_b, ''tmp'']
                = [plugin_a, plugin_b]"
    unfolding ex_cfg_sel
    by (simp add: entry_records_Cons entry_records_Nil ex_valid ex_decode)
  have flt: "filter validFullID [id_a, id_b, ''tmp''] = [id_a, id_b]"
    by (simp add: ex_valid)
  have tab: "loaded_table ?W (Root (config ex_init)) [id_a, id_b, ''tmp''] id_a = Some plugin_a"
    "loaded_table ?W (Root (config ex_init)) [id_a, id_b, ''tmp''] id_b = Some plugin_b"
    unfolding ex_cfg_sel by (rule ex_loaded_table)+
  have tmp: "decode_entry ?W (Root (config ex_init)) ''tmp'' = Some plugin_a"
    unfolding ex_cfg_sel by (rule ex_tmp_decodes)
  show ?thesis
    using reload_store_contents [OF rd] all rd ex_valid tmp
    unfolding recs flt
    by (simp add: tab ex_plugin_ids insert_commute)
qed

end
